theory Spec2Isabelle
  imports Complex_Main "HOL-Library.AList"
begin

section \<open>Python values used by the optimizer\<close>

text \<open>
  The development follows \<open>src/dspy/teleprompt/signature_opt_metric_boosted.py\<close>.
  Exceptions of the source are values of \<open>error\<close>; a function that can raise returns
  \<open>error + 'a\<close> with \<open>Inl\<close> for the exception.
\<close>

datatype error = ValueError | IndexError | KeyError | AttributeError

text \<open>
  A Python string is a sequence of code points. Where the source looks at the characters
  of a string (the digits of an index field) the string is the list of its code points,
  \<open>unicode\<close>; a string that is only built, compared or searched for an ASCII text is kept
  as the list of its UTF-8 bytes, \<open>string\<close>. \<open>ascii s\<close> is the code points of an ASCII
  text.
\<close>

type_synonym unicode = "nat list"

definition ascii :: "string \<Rightarrow> unicode" where
  "ascii s = map of_char s"

text \<open>
  What the source uses of the Python interpreter and is not written out here: the
  decimal value of a code point above ASCII that is a decimal digit of Unicode (\<open>None\<close>
  for any other), the limit \<open>sys.get_int_max_str_digits()\<close> on the digits \<open>int\<close> converts
  (0 when there is no limit), and \<open>str.strip()\<close>, which removes the white space of
  Unicode at both ends of a string.
\<close>

record python =
  nonascii_decimal :: "nat \<Rightarrow> nat option"
  int_max_str_digits :: nat
  str_strip :: "string \<Rightarrow> string"

text \<open>
  A field of a completion is the raw text of the language model, or the empty Python list
  that \<open>propose_metric_observations\<close> writes over it. \<open>py_str\<close> is Python's \<open>str\<close>
  on these two shapes.
\<close>

datatype field_value = Text unicode | EmptyList

fun py_str :: "field_value \<Rightarrow> unicode" where
  "py_str (Text s) = s"
| "py_str EmptyList = ascii ''[]''"

subsection \<open>\<open>safe_strip\<close>: all digit runs of a text\<close>

text \<open>
  The decimal value of a code point that \<open>\d\<close> matches: the ASCII digits are the code
  points 48 to 57, no other ASCII code point is a digit, and above ASCII the table of the
  interpreter decides.
\<close>

definition decimal_value :: "python \<Rightarrow> nat \<Rightarrow> nat option" where
  "decimal_value py c =
     (if c < 128 then (if 48 \<le> c \<and> c \<le> 57 then Some (c - 48) else None)
      else nonascii_decimal py c)"

text \<open>
  \<open>findall_digits py cur s\<close> is \<open>re.findall(r'\d+', s)\<close> with \<open>cur\<close> the run being read:
  the maximal runs of decimal digits, left to right.
\<close>

fun findall_digits :: "python \<Rightarrow> unicode \<Rightarrow> unicode \<Rightarrow> unicode list" where
  "findall_digits py cur [] = (if cur = [] then [] else [cur])"
| "findall_digits py cur (c # cs) =
     (if decimal_value py c \<noteq> None then findall_digits py (cur @ [c]) cs
      else if cur = [] then findall_digits py [] cs
      else cur # findall_digits py [] cs)"

text \<open>
  \<open>int(match)\<close> on a run of decimal digits: it raises \<open>ValueError\<close> when the run has
  more digits than the limit of the interpreter, and is the number the digits write
  otherwise.
\<close>

definition py_int :: "python \<Rightarrow> unicode \<Rightarrow> error + nat" where
  "py_int py ds =
     (if int_max_str_digits py > 0 \<and> length ds > int_max_str_digits py then Inl ValueError
      else Inr (foldl (\<lambda>a c. 10 * a + (case decimal_value py c of Some d \<Rightarrow> d | None \<Rightarrow> 0)) 0 ds))"

text \<open>The list comprehension \<open>[int(match) for match in matches]\<close>.\<close>

fun py_ints :: "python \<Rightarrow> unicode list \<Rightarrow> error + nat list" where
  "py_ints py [] = Inr []"
| "py_ints py (m # ms) =
     (case py_int py m of
        Inl e \<Rightarrow> Inl e
      | Inr i \<Rightarrow> (case py_ints py ms of Inl e \<Rightarrow> Inl e | Inr is \<Rightarrow> Inr (i # is)))"

definition safe_strip :: "python \<Rightarrow> field_value \<Rightarrow> error + nat list" where
  "safe_strip py text = py_ints py (findall_digits py [] (py_str text))"

subsection \<open>Strings\<close>

fun py_join :: "string \<Rightarrow> string list \<Rightarrow> string" where
  "py_join sep [] = []"
| "py_join sep [x] = x"
| "py_join sep (x # y # ys) = x @ sep @ py_join sep (y # ys)"

definition digit_char :: "nat \<Rightarrow> char" where
  "digit_char d = char_of (48 + d)"

fun str_nat :: "nat \<Rightarrow> string" where
  "str_nat n = (if n < 10 then [digit_char n] else str_nat (n div 10) @ [digit_char (n mod 10)])"

declare str_nat.simps [simp del]

fun starts_with :: "string \<Rightarrow> string \<Rightarrow> bool" where
  "starts_with [] s = True"
| "starts_with (p # ps) [] = False"
| "starts_with (p # ps) (c # cs) = (p = c \<and> starts_with ps cs)"

text \<open>\<open>contains p s\<close> is Python's \<open>p in s\<close> on strings.\<close>

fun contains :: "string \<Rightarrow> string \<Rightarrow> bool" where
  "contains p [] = (p = [])"
| "contains p (c # cs) = (starts_with p (c # cs) \<or> contains p cs)"

section \<open>Tables of example rows\<close>

text \<open>
  A row of a pandas table is the list of its cells after \<open>astype(str)\<close>; a table is the
  list of its rows, each with its index label. \<open>exemplars_to_df\<close> builds the table of a
  dataset with the default labels \<open>0, 1, ...\<close>; it reads \<open>exemplars[0]\<close> and so raises on
  an empty dataset.
\<close>

type_synonym row = "string list"
type_synonym dataframe = "(nat \<times> row) list"

definition exemplars_to_df :: "row list \<Rightarrow> error + dataframe" where
  "exemplars_to_df exemplars =
     (if exemplars = [] then Inl IndexError
      else Inr (zip [0..<length exemplars] exemplars))"

text \<open>
  \<open>loc df labels\<close> is \<open>df.loc[labels]\<close> for a list of labels: the rows with these labels,
  in the order of the list; a label the table does not have raises.
\<close>

fun loc :: "dataframe \<Rightarrow> nat list \<Rightarrow> error + dataframe" where
  "loc df [] = Inr []"
| "loc df (l # ls) =
     (case map_of df l of
        None \<Rightarrow> Inl KeyError
      | Some r \<Rightarrow> (case loc df ls of Inl e \<Rightarrow> Inl e | Inr rs \<Rightarrow> Inr ((l, r) # rs)))"

text \<open>
  The tokenizer (tiktoken, bound to a reference model) and the table formatter of a row
  (\<open>Series.to_markdown\<close>) are outside the repository. Every definition below takes them as
  parameters: \<open>encode_len s\<close> is the number of tokens of \<open>s\<close>, and \<open>to_markdown r\<close> is
  the text of a row or \<open>None\<close> when the formatter raises.
\<close>

definition token_count :: "(string \<Rightarrow> nat) \<Rightarrow> nat \<times> row \<Rightarrow> int" where
  "token_count encode_len r = int (encode_len (py_join '' '' (snd r)))"

fun markdownify_rows :: "(row \<Rightarrow> string option) \<Rightarrow> dataframe \<Rightarrow> string option" where
  "markdownify_rows to_markdown [] = Some []"
| "markdownify_rows to_markdown ((index, r) # rest) =
     (case to_markdown r of
        None \<Rightarrow> None
      | Some m \<Rightarrow>
          (case markdownify_rows to_markdown rest of
             None \<Rightarrow> None
           | Some s \<Rightarrow> Some (''EXAMPLE AT INDEX '' @ str_nat index @ [CHR 0x0A] @ m @ [CHR 0x0A, CHR 0x0A] @ s)))"

definition safely_markdownify :: "(row \<Rightarrow> string option) \<Rightarrow> dataframe \<Rightarrow> string" where
  "safely_markdownify to_markdown df =
     (case markdownify_rows to_markdown df of
        None \<Rightarrow> ''None Shown - Too Long''
      | Some s \<Rightarrow> s)"

section \<open>The token-budget renderer\<close>

text \<open>
  The loop of \<open>budgeted_df_stringify\<close>: \<open>nrows_to_keep\<close> counts the rows kept so far and
  \<open>budget_remaining\<close> what is left of the budget.
\<close>

function rows_to_keep :: "(string \<Rightarrow> nat) \<Rightarrow> dataframe \<Rightarrow> nat \<Rightarrow> int \<Rightarrow> nat" where
  "rows_to_keep encode_len df nrows_to_keep budget_remaining =
     (if nrows_to_keep < length df then
        (if token_count encode_len (df ! nrows_to_keep) > budget_remaining then nrows_to_keep
         else rows_to_keep encode_len df (nrows_to_keep + 1)
                (budget_remaining - token_count encode_len (df ! nrows_to_keep)))
      else nrows_to_keep)"
  by pat_completeness auto
termination
  by (relation "measure (\<lambda>(e, df, n, b). length df - n)") auto

declare rows_to_keep.simps [simp del]

definition none_shown :: "dataframe \<Rightarrow> string" where
  "none_shown df = ''None Shown - '' @ str_nat (length df) @ '' present, too long to show''"

definition budgeted_df_stringify ::
  "(string \<Rightarrow> nat) \<Rightarrow> (row \<Rightarrow> string option) \<Rightarrow> dataframe \<Rightarrow> int \<Rightarrow> string" where
  "budgeted_df_stringify encode_len to_markdown df budget =
     (let nrows_to_keep = rows_to_keep encode_len df 0 budget in
      if nrows_to_keep = 0 then none_shown df
      else safely_markdownify to_markdown (take nrows_to_keep df))"

section \<open>Metric observations\<close>

text \<open>
  A \<open>MetricObservation\<close> is a Python object: two observations with the same summary and
  rows are still two objects. \<open>oid\<close> is the identity of the object, the number of
  observations created before it in the run.
\<close>

record metric_observation =
  oid :: nat
  summary :: string
  failure_exemplars :: dataframe
  example_token_budget :: int

definition MetricObservation :: "nat \<Rightarrow> string \<Rightarrow> dataframe \<Rightarrow> metric_observation" where
  "MetricObservation new_oid s df =
     \<lparr>oid = new_oid, summary = s, failure_exemplars = df, example_token_budget = 300\<rparr>"

text \<open>
  The loop of \<open>MetricObservation.__str__\<close>. \<open>iloc\<close> at a position past the last row
  raises; the loop leaves when \<open>nrows_to_keep >= len(failure_exemplars) - 1\<close>.
\<close>

function str_rows_to_keep :: "(string \<Rightarrow> nat) \<Rightarrow> dataframe \<Rightarrow> nat \<Rightarrow> int \<Rightarrow> error + nat" where
  "str_rows_to_keep encode_len df nrows_to_keep budget_remaining =
     (if length df \<le> nrows_to_keep then Inl IndexError
      else if token_count encode_len (df ! nrows_to_keep) > budget_remaining then Inr nrows_to_keep
      else if int (nrows_to_keep + 1) \<ge> int (length df) - 1 then Inr (nrows_to_keep + 1)
      else str_rows_to_keep encode_len df (nrows_to_keep + 1)
             (budget_remaining - token_count encode_len (df ! nrows_to_keep)))"
  by pat_completeness auto
termination
  by (relation "measure (\<lambda>(e, df, n, b). length df - n)") auto

declare str_rows_to_keep.simps [simp del]

definition MetricObservation_str ::
  "(string \<Rightarrow> nat) \<Rightarrow> (row \<Rightarrow> string option) \<Rightarrow> metric_observation \<Rightarrow> error + string" where
  "MetricObservation_str encode_len to_markdown ob =
     (case str_rows_to_keep encode_len (failure_exemplars ob) 0 (example_token_budget ob) of
        Inl e \<Rightarrow> Inl e
      | Inr nrows_to_keep \<Rightarrow>
          if nrows_to_keep = 0 then
            Inr (''Summary: '' @ summary ob @ [CHR 0x0A] @ ''Failure Exemplars: ''
                 @ none_shown (failure_exemplars ob))
          else
            Inr (''Summary: '' @ summary ob @ [CHR 0x0A] @ ''Failure Exemplars: ''
                 @ safely_markdownify to_markdown (take nrows_to_keep (failure_exemplars ob))))"

section \<open>The observation history\<close>

text \<open>
  The fields of \<open>MetricObservationHistory\<close>, but for the tokenizer and the metric, which
  are parameters of the development. The constructor builds the tables of the
  development set and of the evaluation set, in this order. \<open>next_oid\<close> is the identity
  the next created observation gets.
\<close>

record metric_observation_history =
  max_metric_observations :: nat
  current_generation_metric_observations :: "metric_observation list"
  previous_generations_metric_observations_used :: "metric_observation list"
  previous_generations_metric_observations_unused :: "metric_observation list"
  devset :: "row list"
  devset_df :: dataframe
  evalset :: "row list"
  evalset_df :: dataframe
  tokens_incorrect_example :: int
  tokens_correct_example :: int
  next_oid :: nat

definition MetricObservationHistory ::
  "row list \<Rightarrow> row list \<Rightarrow> error + metric_observation_history" where
  "MetricObservationHistory dev ev =
     (case exemplars_to_df dev of
        Inl e \<Rightarrow> Inl e
      | Inr df \<Rightarrow>
          (case exemplars_to_df ev of
             Inl e \<Rightarrow> Inl e
           | Inr edf \<Rightarrow>
               Inr \<lparr>max_metric_observations = 15,
                    current_generation_metric_observations = [],
                    previous_generations_metric_observations_used = [],
                    previous_generations_metric_observations_unused = [],
                    devset = dev,
                    devset_df = df,
                    evalset = ev,
                    evalset_df = edf,
                    tokens_incorrect_example = 2000,
                    tokens_correct_example = 600,
                    next_oid = 0\<rparr>))"

text \<open>What the operations print: a line of text, or the \<open>print\<close> of a list of strings.\<close>

datatype printed = Line string | StrList "string list"

definition invalid_indices_warning :: printed where
  "invalid_indices_warning = Line ''Warning: Exemplar parsing yielded invalid indices''"

subsection \<open>\<open>propose_metric_observations\<close>\<close>

text \<open>
  The body of the loop over the completions, for the completion \<open>c\<close>: its summary and
  its index field.
\<close>

definition new_metric_observation ::
  "python \<Rightarrow> metric_observation_history \<Rightarrow> nat \<Rightarrow> string \<times> field_value \<Rightarrow>
   error + (metric_observation \<times> printed list)" where
  "new_metric_observation py h new_oid c =
     (case safe_strip py (snd c) of
        Inl e \<Rightarrow> Inl e
      | Inr safe_citations \<Rightarrow>
          (if length safe_citations = 0 then Inl ValueError
           else
             (let kept = filter (\<lambda>index. index < length (devset h)) safe_citations;
                  out = (if length kept < length safe_citations then [invalid_indices_warning]
                         else [])
              in (case loc (devset_df h) kept of
                    Inl e \<Rightarrow> Inl e
                  | Inr rows \<Rightarrow> Inr (MetricObservation new_oid (fst c) rows, out)))))"

fun new_metric_observations ::
  "python \<Rightarrow> metric_observation_history \<Rightarrow> nat \<Rightarrow> (string \<times> field_value) list \<Rightarrow>
   error + (metric_observation list \<times> printed list)" where
  "new_metric_observations py h new_oid [] = Inr ([], [])"
| "new_metric_observations py h new_oid (c # cs) =
     (case new_metric_observation py h new_oid c of
        Inl e \<Rightarrow> Inl e
      | Inr (ob, out) \<Rightarrow>
          (case new_metric_observations py h (new_oid + 1) cs of
             Inl e \<Rightarrow> Inl e
           | Inr (obs, outs) \<Rightarrow> Inr (ob # obs, out @ outs)))"

text \<open>
  \<open>completions\<close> is the answer of the language model to the request the function sends:
  for each completion its summary and its index field. The instructions passed to the
  function only reach the request.
\<close>

definition propose_metric_observations ::
  "python \<Rightarrow> (string \<Rightarrow> nat) \<Rightarrow> (row \<Rightarrow> string option) \<Rightarrow> metric_observation_history \<Rightarrow>
   dataframe \<Rightarrow> dataframe \<Rightarrow> (string \<times> unicode) list \<Rightarrow>
   error + (metric_observation_history \<times> printed list)" where
  "propose_metric_observations py encode_len to_markdown h current_instructions_failed_on
       current_instructions_succeeded_on completions =
     (let success_stringified =
            budgeted_df_stringify encode_len to_markdown current_instructions_succeeded_on
              (tokens_correct_example h);
          failure_stringified =
            budgeted_df_stringify encode_len to_markdown current_instructions_failed_on
              (tokens_incorrect_example h);
          indices =
            (if contains ''None Shown'' failure_stringified
             then map (\<lambda>c. EmptyList) completions
             else map (\<lambda>c. Text (snd c)) completions)
      in case new_metric_observations py h (next_oid h) (zip (map fst completions) indices) of
           Inl e \<Rightarrow> Inl e
         | Inr (new, out) \<Rightarrow>
             (let used = previous_generations_metric_observations_used h
                         @ current_generation_metric_observations h
              in Inr (h\<lparr>previous_generations_metric_observations_used := used,
                        current_generation_metric_observations := new,
                        next_oid := next_oid h + length new\<rparr>,
                      out @ [StrList (map summary used)])))"

subsection \<open>\<open>update_metric_observations\<close>\<close>

text \<open>
  The loop over the completions of the consolidation request. \<open>used\<close> is the list
  \<open>previous_generations_metric_observations_used\<close>, which the loop appends to. Python's
  \<open>list(set(...))\<close> keeps one copy of each label; the order in which a set is listed is
  not fixed by the language, and \<open>remdups\<close> stands for it.
\<close>

fun reconcile ::
  "python \<Rightarrow> dataframe \<Rightarrow> nat \<Rightarrow> metric_observation list \<Rightarrow> (string \<times> unicode) list \<Rightarrow>
   error + (metric_observation list \<times> printed list)" where
  "reconcile py df new_oid used [] = Inr (used, [])"
| "reconcile py df new_oid used (c # cs) =
     (case safe_strip py (Text (snd c)) of
        Inl e \<Rightarrow> Inl e
      | Inr parsed \<Rightarrow>
          (let in_range = filter (\<lambda>i. i < length used) parsed;
               warn = (length in_range < length parsed);
               safe_parent_indices = (if warn then in_range else parsed);
               corresponding_parent_metric_observations =
                 map (\<lambda>i. used ! i) safe_parent_indices;
               corresponding_parent_indices =
                 remdups (concat (map (\<lambda>m. map fst (failure_exemplars m))
                                      corresponding_parent_metric_observations))
           in (case loc df corresponding_parent_indices of
                 Inl e \<Rightarrow> Inl e
               | Inr rows \<Rightarrow>
                   (case reconcile py df (new_oid + 1)
                           (used @ [MetricObservation new_oid (fst c) rows]) cs of
                      Inl e \<Rightarrow> Inl e
                    | Inr (used', outs) \<Rightarrow>
                        Inr (used', (if warn then [invalid_indices_warning] else []) @ outs)))))"

definition update_metric_observations ::
  "python \<Rightarrow> metric_observation_history \<Rightarrow> (string \<times> unicode) list \<Rightarrow>
   error + (metric_observation_history \<times> printed list)" where
  "update_metric_observations py h completions =
     (if length (previous_generations_metric_observations_used h) > max_metric_observations h then
        (case reconcile py (devset_df h) (next_oid h)
                (previous_generations_metric_observations_used h) completions of
           Inl e \<Rightarrow> Inl e
         | Inr (used', out) \<Rightarrow>
             Inr (h\<lparr>previous_generations_metric_observations_unused :=
                       previous_generations_metric_observations_unused h
                       @ previous_generations_metric_observations_used h,
                     previous_generations_metric_observations_used := used',
                     next_oid := next_oid h + length completions\<rparr>,
                  out))
      else Inr (h, []))"

section \<open>Predictors, programs and candidates\<close>

text \<open>
  What \<open>compile\<close> reads of a predictor: the attribute \<open>extended_signature\<close>, or the pair
  \<open>extended_signature1\<close> and \<open>extended_signature2\<close>; an attribute the predictor does not
  have is \<open>None\<close>, and reading it raises. A signature has its instructions and its
  fields (\<open>sig_fields\<close>), a field is a named tuple. A program is the list of its predictors.
\<close>

record field =
  name :: string
  separator :: string
  input_variable :: string
  output_variable :: string
  description :: string

record signature =
  instructions :: string
  sig_fields :: "field list"

record predictor =
  extended_signature :: "signature option"
  extended_signature1 :: "signature option"
  extended_signature2 :: "signature option"

text \<open>\<open>fields[-1]\<close>\<close>

definition last_field :: "signature \<Rightarrow> error + field" where
  "last_field s = (if sig_fields s = [] then Inl IndexError else Inr (last (sig_fields s)))"

text \<open>The completions of an instruction request: one list for each output field.\<close>

record completions =
  proposed_instruction :: "string list"
  proposed_prefix_for_output_field :: "string list"

subsection \<open>The initial candidates of \<open>compile\<close>\<close>

definition basic_instruction_and_prefix :: "predictor \<Rightarrow> error + (string \<times> string)" where
  "basic_instruction_and_prefix p =
     (case extended_signature p of
        Some s \<Rightarrow>
          (case last_field s of Inl e \<Rightarrow> Inl e | Inr f \<Rightarrow> Inr (instructions s, name f))
      | None \<Rightarrow>
          (case extended_signature1 p of
             None \<Rightarrow> Inl AttributeError
           | Some s \<Rightarrow>
               (case last_field s of Inl e \<Rightarrow> Inl e | Inr f \<Rightarrow> Inr (instructions s, name f))))"

text \<open>
  \<open>generate basic_instruction n\<close> is the answer of the language model to the request
  \<open>BasicGenerateInstruction\<close> for \<open>n\<close> completions.
\<close>

definition initial_candidates ::
  "(string \<Rightarrow> int \<Rightarrow> completions) \<Rightarrow> int \<Rightarrow> predictor \<Rightarrow> error + completions" where
  "initial_candidates generate breadth p =
     (case basic_instruction_and_prefix p of
        Inl e \<Rightarrow> Inl e
      | Inr (basic_instruction, basic_prefix) \<Rightarrow>
          (let instruct = generate basic_instruction (breadth - 1) in
           Inr (instruct\<lparr>proposed_instruction := proposed_instruction instruct @ [basic_instruction],
                         proposed_prefix_for_output_field :=
                           proposed_prefix_for_output_field instruct @ [basic_prefix]\<rparr>)))"

text \<open>The loop over \<open>module.predictors()\<close>; the pools are listed in the order of the predictors.\<close>

fun all_initial_candidates ::
  "(string \<Rightarrow> int \<Rightarrow> completions) \<Rightarrow> int \<Rightarrow> predictor list \<Rightarrow> error + completions list" where
  "all_initial_candidates generate breadth [] = Inr []"
| "all_initial_candidates generate breadth (p # ps) =
     (case initial_candidates generate breadth p of
        Inl e \<Rightarrow> Inl e
      | Inr c \<Rightarrow>
          (case all_initial_candidates generate breadth ps of
             Inl e \<Rightarrow> Inl e
           | Inr cs \<Rightarrow> Inr (c # cs)))"

text \<open>Iterating over completions gives one candidate for each position.\<close>

definition candidates_of :: "completions \<Rightarrow> (string \<times> string) list" where
  "candidates_of c = zip (proposed_instruction c) (proposed_prefix_for_output_field c)"

subsection \<open>The evaluated candidates of a predictor\<close>

text \<open>
  \<open>evaluated_candidates[id(p_old)]\<close> is a dictionary from \<open>(instruction, prefix)\<close> to the
  record of the evaluation. A Python dictionary lists its entries in the order in which
  their keys were first inserted, so it is an association list with distinct keys. The
  score of an evaluation is a finite number.
\<close>

record evaluation =
  score :: real
  program :: "predictor list"
  instruction :: string
  prefix :: string
  depth :: nat

type_synonym evaluated_candidates = "((string \<times> string) \<times> evaluation) list"

definition record_candidate ::
  "evaluated_candidates \<Rightarrow> string \<Rightarrow> string \<Rightarrow> real \<Rightarrow> predictor list \<Rightarrow> nat \<Rightarrow>
   evaluated_candidates" where
  "record_candidate evaluated ins pre sc module_clone d =
     (let replace_entry =
            (case map_of evaluated (ins, pre) of
               None \<Rightarrow> True
             | Some old \<Rightarrow> \<not> (score old \<ge> sc))
      in if replace_entry then
           AList.update (ins, pre)
             \<lparr>score = sc, program = module_clone, instruction = ins, prefix = pre, depth = d\<rparr>
             evaluated
         else evaluated)"

text \<open>Python's \<open>max(xs, key=...)\<close>: the first of the greatest elements; it raises on an empty list.\<close>

fun py_max :: "('a \<Rightarrow> real) \<Rightarrow> 'a list \<Rightarrow> error + 'a" where
  "py_max key [] = Inl ValueError"
| "py_max key (x # xs) = Inr (foldl (\<lambda>best y. if key y > key best then y else best) x xs)"

definition best_candidate :: "evaluated_candidates \<Rightarrow> error + evaluation" where
  "best_candidate evaluated = py_max score (map snd evaluated)"

subsection \<open>Removing duplicates from the final list\<close>

fun check_predictors_equal :: "(predictor \<times> predictor) list \<Rightarrow> error + bool" where
  "check_predictors_equal [] = Inr True"
| "check_predictors_equal ((p1, p2) # rest) =
     (case extended_signature p1 of
        None \<Rightarrow> Inl AttributeError
      | Some s1 \<Rightarrow>
          (case extended_signature p2 of
             None \<Rightarrow> Inl AttributeError
           | Some s2 \<Rightarrow>
               if \<not> instructions s1 = instructions s2 then Inr False
               else
                 (case last_field s1 of
                    Inl e \<Rightarrow> Inl e
                  | Inr f1 \<Rightarrow>
                      (case last_field s2 of
                         Inl e \<Rightarrow> Inl e
                       | Inr f2 \<Rightarrow>
                           if \<not> f1 = f2 then Inr False else check_predictors_equal rest))))"

definition check_candidates_equal :: "evaluation \<Rightarrow> evaluation \<Rightarrow> error + bool" where
  "check_candidates_equal candidate1 candidate2 =
     check_predictors_equal (zip (program candidate1) (program candidate2))"

text \<open>The inner loop of \<open>_drop_duplicates\<close>: whether \<open>c\<close> equals a candidate of the batch.\<close>

fun repeated_in :: "evaluation \<Rightarrow> evaluation list \<Rightarrow> error + bool" where
  "repeated_in c [] = Inr False"
| "repeated_in c (c2 # rest) =
     (case check_candidates_equal c c2 of
        Inl e \<Rightarrow> Inl e
      | Inr eq \<Rightarrow> if eq then Inr True else repeated_in c rest)"

fun drop_duplicates_loop ::
  "evaluation list \<Rightarrow> evaluation list \<Rightarrow> evaluation list \<Rightarrow> real \<Rightarrow> error + evaluation list" where
  "drop_duplicates_loop [] final_candidates last_batch last_batch_score = Inr final_candidates"
| "drop_duplicates_loop (c # cs) final_candidates last_batch last_batch_score =
     (if score c = last_batch_score then
        (case repeated_in c last_batch of
           Inl e \<Rightarrow> Inl e
         | Inr repeat \<Rightarrow>
             if repeat then drop_duplicates_loop cs final_candidates last_batch last_batch_score
             else drop_duplicates_loop cs (final_candidates @ [c]) (last_batch @ [c])
                    last_batch_score)
      else drop_duplicates_loop cs (final_candidates @ [c]) [c] (score c))"

definition drop_duplicates :: "evaluation list \<Rightarrow> error + evaluation list" where
  "drop_duplicates candidates = drop_duplicates_loop candidates [] [] (- 1)"

text \<open>
  The end of \<open>compile\<close>: the evaluations of all predictors, sorted by descending score
  (Python's sort is stable), without duplicates; the program returned is the one of the
  first candidate.
\<close>

definition final_candidates_and_program ::
  "evaluated_candidates list \<Rightarrow> error + (predictor list \<times> evaluation list)" where
  "final_candidates_and_program evaluated =
     (case drop_duplicates (sort_key (\<lambda>c. - score c) (concat (map (map snd) evaluated))) of
        Inl e \<Rightarrow> Inl e
      | Inr candidates \<Rightarrow>
          (case candidates of
             [] \<Rightarrow> Inl IndexError
           | c # rest \<Rightarrow> Inr (program c, candidates)))"

subsection \<open>Writing a candidate into a predictor\<close>

text \<open>
  \<open>compile\<close> writes the instruction and the prefix of a candidate into the predictor of
  the working program: into \<open>extended_signature\<close> when the predictor has it, else into
  both \<open>extended_signature1\<close> and \<open>extended_signature2\<close>. The prefix replaces the name
  of the last field.
\<close>

definition replace_instruction_and_prefix :: "signature \<Rightarrow> string \<Rightarrow> string \<Rightarrow> error + signature" where
  "replace_instruction_and_prefix s ins pre =
     (if sig_fields s = [] then Inl IndexError
      else Inr (s\<lparr>instructions := ins,
                  sig_fields := butlast (sig_fields s) @ [(last (sig_fields s))\<lparr>name := pre\<rparr>]\<rparr>))"

definition apply_candidate :: "predictor \<Rightarrow> string \<Rightarrow> string \<Rightarrow> error + predictor" where
  "apply_candidate p_new ins pre =
     (case extended_signature p_new of
        Some s \<Rightarrow>
          (case replace_instruction_and_prefix s ins pre of
             Inl e \<Rightarrow> Inl e
           | Inr s' \<Rightarrow> Inr (p_new\<lparr>extended_signature := Some s'\<rparr>))
      | None \<Rightarrow>
          (case extended_signature1 p_new of
             None \<Rightarrow> Inl AttributeError
           | Some s1 \<Rightarrow>
               (case replace_instruction_and_prefix s1 ins pre of
                  Inl e \<Rightarrow> Inl e
                | Inr s1' \<Rightarrow>
                    (case extended_signature2 p_new of
                       None \<Rightarrow> Inl AttributeError
                     | Some s2 \<Rightarrow>
                         (case replace_instruction_and_prefix s2 ins pre of
                            Inl e \<Rightarrow> Inl e
                          | Inr s2' \<Rightarrow>
                              Inr (p_new\<lparr>extended_signature1 := Some s1',
                                         extended_signature2 := Some s2'\<rparr>))))))"

text \<open>
  A predictor that \<open>_check_candidates_equal\<close> can read has \<open>extended_signature\<close> with at
  least one field; two such predictors are the same for it when their instructions and
  their last fields are equal.
\<close>

definition single_slot :: "predictor \<Rightarrow> bool" where
  "single_slot p = (case extended_signature p of None \<Rightarrow> False | Some s \<Rightarrow> sig_fields s \<noteq> [])"

definition same_instruction_and_field :: "predictor \<Rightarrow> predictor \<Rightarrow> bool" where
  "same_instruction_and_field p1 p2 =
     (case (extended_signature p1, extended_signature p2) of
        (Some s1, Some s2) \<Rightarrow>
          instructions s1 = instructions s2 \<and> last (sig_fields s1) = last (sig_fields s2)
      | _ \<Rightarrow> False)"

text \<open>
  A call of the recording step gives the instruction, the prefix, the score, the program
  and the depth; \<open>record_calls\<close> is the dictionary after a sequence of calls, starting
  from the empty dictionary.
\<close>

type_synonym record_call = "string \<times> string \<times> real \<times> predictor list \<times> nat"

definition call_key :: "record_call \<Rightarrow> string \<times> string" where
  "call_key c = (case c of (ins, pre, sc, prog, d) \<Rightarrow> (ins, pre))"

definition call_score :: "record_call \<Rightarrow> real" where
  "call_score c = (case c of (ins, pre, sc, prog, d) \<Rightarrow> sc)"

definition record_call :: "evaluated_candidates \<Rightarrow> record_call \<Rightarrow> evaluated_candidates" where
  "record_call evaluated c =
     (case c of (ins, pre, sc, prog, d) \<Rightarrow> record_candidate evaluated ins pre sc prog d)"

definition record_calls :: "record_call list \<Rightarrow> evaluated_candidates" where
  "record_calls calls = foldl record_call [] calls"

definition call_record :: "record_call \<Rightarrow> evaluation" where
  "call_record c =
     (case c of (ins, pre, sc, prog, d) \<Rightarrow>
        \<lparr>score = sc, program = prog, instruction = ins, prefix = pre, depth = d\<rparr>)"

subsection \<open>The evaluation of the candidates of a predictor\<close>

text \<open>
  \<open>s.strip('"')\<close> removes the double quotes at both ends of a string; the double quote is
  the byte 34 and no other character has this byte in UTF-8. The instruction and the
  prefix \<open>compile\<close> takes from a candidate are its two texts after \<open>strip('"').strip()\<close>.
\<close>

definition strip_quotes :: "string \<Rightarrow> string" where
  "strip_quotes s =
     rev (dropWhile (\<lambda>c. c = CHR 0x22) (rev (dropWhile (\<lambda>c. c = CHR 0x22) s)))"

definition candidate_instruction_and_prefix :: "python \<Rightarrow> string \<times> string \<Rightarrow> string \<times> string" where
  "candidate_instruction_and_prefix py c =
     (str_strip py (strip_quotes (fst c)), str_strip py (strip_quotes (snd c)))"

text \<open>
  What the loop calls outside the repository: the interpreter, the tokenizer, the row
  formatter, the evaluator and the language model. The evaluations are numbered by \<open>total_calls\<close>.
  \<open>evaluate k program\<close> is what the evaluation number \<open>k\<close> gives on the program: its
  score together with the rows of the annotated dataset whose \<open>correct\<close> is \<open>False\<close> and
  those whose \<open>correct\<close> is \<open>True\<close>. \<open>propose_answer k\<close> and \<open>reconcile_answer k\<close> are
  the answers of the language model to the request for observations and to the
  consolidation request after the evaluation number \<open>k\<close>.
\<close>

record services =
  interpreter :: python
  encoder_len :: "string \<Rightarrow> nat"
  row_to_markdown :: "row \<Rightarrow> string option"
  evaluate :: "nat \<Rightarrow> predictor list \<Rightarrow> real \<times> dataframe \<times> dataframe"
  propose_answer :: "nat \<Rightarrow> (string \<times> unicode) list"
  reconcile_answer :: "nat \<Rightarrow> (string \<times> unicode) list"

text \<open>
  The state of the loop over the candidates of one predictor: the working program
  \<open>module_clone\<close>, the history, the dictionary \<open>evaluated_candidates[id(p_old)]\<close>, the
  counter of evaluations and the scores kept for the statistics. \<open>evaluate_calls\<close> is
  the effect of the calls of the evaluator: the programs it was called on, in order.
\<close>

record search_state =
  module_clone :: "predictor list"
  history :: metric_observation_history
  evaluated_of_predictor :: evaluated_candidates
  total_calls :: nat
  latest_scores :: "real list"
  evaluate_calls :: "predictor list list"

text \<open>
  The loop \<open>for c_i, c in enumerate(candidates_)\<close> of \<open>compile\<close> at depth \<open>d\<close> for the
  predictor at position \<open>p_i\<close> of the program, a position below the number of its
  predictors; \<open>n\<close> is \<open>len(candidates_)\<close>. Each round writes the candidate into the
  predictor of the working program, evaluates the program, proposes and consolidates
  observations, and records the evaluation.
\<close>

fun evaluate_candidates ::
  "services \<Rightarrow> int \<Rightarrow> nat \<Rightarrow> nat \<Rightarrow> nat \<Rightarrow> nat \<Rightarrow> (string \<times> string) list \<Rightarrow> search_state \<Rightarrow>
   error + search_state" where
  "evaluate_candidates sv breadth d p_i n c_i [] st = Inr st"
| "evaluate_candidates sv breadth d p_i n c_i (c # cs) st =
     (case apply_candidate (module_clone st ! p_i)
             (fst (candidate_instruction_and_prefix (interpreter sv) c))
             (snd (candidate_instruction_and_prefix (interpreter sv) c)) of
        Inl e \<Rightarrow> Inl e
      | Inr p_new \<Rightarrow>
          (case propose_metric_observations (interpreter sv) (encoder_len sv) (row_to_markdown sv)
                  (history st)
                  (fst (snd (evaluate sv (total_calls st) ((module_clone st)[p_i := p_new]))))
                  (snd (snd (evaluate sv (total_calls st) ((module_clone st)[p_i := p_new]))))
                  (propose_answer sv (total_calls st)) of
             Inl e \<Rightarrow> Inl e
           | Inr (h1, out1) \<Rightarrow>
               (case update_metric_observations (interpreter sv) h1
                       (reconcile_answer sv (total_calls st)) of
                  Inl e \<Rightarrow> Inl e
                | Inr (h2, out2) \<Rightarrow>
                    evaluate_candidates sv breadth d p_i n (c_i + 1) cs
                      (st\<lparr>module_clone := (module_clone st)[p_i := p_new],
                          history := h2,
                          evaluated_of_predictor :=
                            record_candidate (evaluated_of_predictor st)
                              (fst (candidate_instruction_and_prefix (interpreter sv) c))
                              (snd (candidate_instruction_and_prefix (interpreter sv) c))
                              (fst (evaluate sv (total_calls st) ((module_clone st)[p_i := p_new])))
                              ((module_clone st)[p_i := p_new]) d,
                          total_calls := total_calls st + 1,
                          latest_scores :=
                            (if int n - breadth \<le> int c_i
                             then latest_scores st
                                  @ [fst (evaluate sv (total_calls st) ((module_clone st)[p_i := p_new]))]
                             else latest_scores st),
                          evaluate_calls :=
                            evaluate_calls st @ [(module_clone st)[p_i := p_new]]\<rparr>))))"

subsection \<open>The feedback calls of one evaluation\<close>

text \<open>
  The two calls \<open>compile\<close> makes after each evaluation (what they print is left out), and
  \<open>n\<close> evaluations with the same failing rows and the same answers of the language
  model.
\<close>

definition propose_then_update ::
  "python \<Rightarrow> (string \<Rightarrow> nat) \<Rightarrow> (row \<Rightarrow> string option) \<Rightarrow> dataframe \<Rightarrow> dataframe \<Rightarrow>
   (string \<times> unicode) list \<Rightarrow> (string \<times> unicode) list \<Rightarrow>
   metric_observation_history \<Rightarrow> error + metric_observation_history" where
  "propose_then_update py encode_len to_markdown failed succeeded proposals reconciliations h =
     (case propose_metric_observations py encode_len to_markdown h failed succeeded proposals of
        Inl e \<Rightarrow> Inl e
      | Inr (h1, out1) \<Rightarrow>
          (case update_metric_observations py h1 reconciliations of
             Inl e \<Rightarrow> Inl e
           | Inr (h2, out2) \<Rightarrow> Inr h2))"

fun repeat_evaluations ::
  "nat \<Rightarrow> (metric_observation_history \<Rightarrow> error + metric_observation_history) \<Rightarrow>
   metric_observation_history \<Rightarrow> error + metric_observation_history" where
  "repeat_evaluations 0 step h = Inr h"
| "repeat_evaluations (Suc n) step h =
     (case step h of Inl e \<Rightarrow> Inl e | Inr h' \<Rightarrow> repeat_evaluations n step h')"

section \<open>Concrete inputs\<close>

text \<open>
  A tokenizer and a row formatter to run the definitions on concrete inputs: one token for
  each character, and the cells of a row separated by bars. A dataset of three examples
  and the history \<open>MetricObservationHistory\<close> builds for it.
\<close>

text \<open>
  An interpreter to run the definitions on concrete inputs: the default limit of 4300
  digits, of the digits above ASCII the Arabic-Indic ones, and a \<open>strip\<close> that removes
  the ASCII white space. On ASCII strings it does what Python does.
\<close>

definition example_strip :: "string \<Rightarrow> string" where
  "example_strip s =
     rev (dropWhile (\<lambda>c. of_char c \<in> {9, 10, 11, 12, 13, 28, 29, 30, 31, 32 :: nat})
            (rev (dropWhile (\<lambda>c. of_char c \<in> {9, 10, 11, 12, 13, 28, 29, 30, 31, 32 :: nat}) s)))"

definition example_python :: python where
  "example_python =
     \<lparr>nonascii_decimal = (\<lambda>c. if 1632 \<le> c \<and> c \<le> 1641 then Some (c - 1632) else None),
      int_max_str_digits = 4300,
      str_strip = example_strip\<rparr>"

definition example_encode_len :: "string \<Rightarrow> nat" where
  "example_encode_len s = length s"

definition example_to_markdown :: "row \<Rightarrow> string option" where
  "example_to_markdown r = Some (py_join '' | '' r)"

definition example_devset :: "row list" where
  "example_devset = [[''q0'', ''a0''], [''q1'', ''a1''], [''q2'', ''a2'']]"

definition example_history :: metric_observation_history where
  "example_history =
     \<lparr>max_metric_observations = 15,
      current_generation_metric_observations = [],
      previous_generations_metric_observations_used = [],
      previous_generations_metric_observations_unused = [],
      devset = example_devset,
      devset_df = [(0, [''q0'', ''a0'']), (1, [''q1'', ''a1'']), (2, [''q2'', ''a2''])],
      evalset = example_devset,
      evalset_df = [(0, [''q0'', ''a0'']), (1, [''q1'', ''a1'']), (2, [''q2'', ''a2''])],
      tokens_incorrect_example = 2000,
      tokens_correct_example = 600,
      next_oid = 0\<rparr>"

text \<open>
  The history after seven evaluations that each proposed three observations about the
  first example: eighteen observations are in use, three are current.
\<close>

definition example_observations :: "nat \<Rightarrow> nat \<Rightarrow> metric_observation list" where
  "example_observations first n =
     map (\<lambda>i. MetricObservation i ''tip'' [(0, [''q0'', ''a0''])]) [first..<first + n]"

definition full_history :: metric_observation_history where
  "full_history =
     example_history
       \<lparr>current_generation_metric_observations := example_observations 18 3,
        previous_generations_metric_observations_used := example_observations 0 18,
        next_oid := 21\<rparr>"

text \<open>Seven completions of the consolidation request, each naming the parents 0 and 1.\<close>

definition seven_completions :: "(string \<times> unicode) list" where
  "seven_completions = replicate 7 (''merged'', ascii ''[0, 1]'')"

text \<open>An observation with two short rows.\<close>

definition two_row_observation :: metric_observation where
  "two_row_observation = MetricObservation 0 ''tip'' [(0, [''q0'', ''a0'']), (1, [''q1'', ''a1''])]"

text \<open>Three calls of the recording step, two of them with the greatest score.\<close>

definition example_calls :: "record_call list" where
  "example_calls = [(''a'', ''p'', 50, [], 0), (''b'', ''p'', 70, [], 0), (''c'', ''p'', 70, [], 1)]"

text \<open>
  A signature with one output field; a predictor that has \<open>extended_signature\<close> and one
  that has \<open>extended_signature1\<close> and \<open>extended_signature2\<close> instead; a language model
  that answers an instruction request with \<open>n\<close> copies of one completion.
\<close>

definition example_field :: field where
  "example_field = \<lparr>name = ''Answer:'', separator = '' '', input_variable = ''answer'',
                      output_variable = ''answer'', description = ''the answer''\<rparr>"

definition example_signature :: signature where
  "example_signature = \<lparr>instructions = ''Answer the question.'', sig_fields = [example_field]\<rparr>"

definition single_slot_predictor :: predictor where
  "single_slot_predictor =
     \<lparr>extended_signature = Some example_signature,
      extended_signature1 = None, extended_signature2 = None\<rparr>"

definition dual_slot_predictor :: predictor where
  "dual_slot_predictor =
     \<lparr>extended_signature = None,
      extended_signature1 = Some example_signature, extended_signature2 = Some example_signature\<rparr>"

definition example_generate :: "string \<Rightarrow> int \<Rightarrow> completions" where
  "example_generate basic_instruction n =
     \<lparr>proposed_instruction = replicate (nat n) (basic_instruction @ '' Think step by step.''),
      proposed_prefix_for_output_field = replicate (nat n) ''Result:''\<rparr>"

text \<open>
  A predictor whose instructions end with a line break. Services for a run of the loop
  over the candidates: every evaluation scores 0 and fails on the first example, and the
  language model answers the request for observations with three observations about the
  first example. The state in which the loop starts on a program of one predictor.
\<close>

definition newline_signature :: signature where
  "newline_signature =
     \<lparr>instructions = ''Answer the question.'' @ [CHR 0x0A], sig_fields = [example_field]\<rparr>"

definition newline_predictor :: predictor where
  "newline_predictor =
     \<lparr>extended_signature = Some newline_signature,
      extended_signature1 = None, extended_signature2 = None\<rparr>"

definition example_services :: services where
  "example_services =
     \<lparr>interpreter = example_python,
      encoder_len = example_encode_len,
      row_to_markdown = example_to_markdown,
      evaluate = (\<lambda>k prog. (0, [(0, [''q0'', ''a0''])],
                                [(1, [''q1'', ''a1'']), (2, [''q2'', ''a2''])])),
      propose_answer = (\<lambda>k. replicate 3 (''tip'', ascii ''[0]'')),
      reconcile_answer = (\<lambda>k. seven_completions)\<rparr>"

text \<open>A generated instruction in double quotes, with a space before the closing one.\<close>

definition quoted_instruction :: string where
  "quoted_instruction =
     [CHR 0x22] @ ''Answer the question. Think step by step.'' @ [CHR 0x20, CHR 0x22]"

definition start_state :: "predictor \<Rightarrow> search_state" where
  "start_state p =
     \<lparr>module_clone = [p],
      history = example_history,
      evaluated_of_predictor = [],
      total_calls = 0,
      latest_scores = [],
      evaluate_calls = []\<rparr>"

text \<open>
  The run with breadth 2 and depth 1 on a program of one predictor \<open>p\<close>, in which both
  candidates (the generated one, then the baseline) score 0: the two evaluations recorded,
  and the end of \<open>compile\<close> on them.
\<close>

definition two_candidates_scoring_zero :: "predictor \<Rightarrow> error + (predictor list \<times> evaluation list)" where
  "two_candidates_scoring_zero p =
     (case apply_candidate p ''Answer the question. Think step by step.'' ''Result:'' of
        Inl e \<Rightarrow> Inl e
      | Inr p1 \<Rightarrow>
          (case apply_candidate p1 ''Answer the question.'' ''Answer:'' of
             Inl e \<Rightarrow> Inl e
           | Inr p2 \<Rightarrow>
               final_candidates_and_program
                 [record_calls
                    [(''Answer the question. Think step by step.'', ''Result:'', 0, [p1], 0),
                     (''Answer the question.'', ''Answer:'', 0, [p2], 0)]]))"

text \<open>
  The invariant of the history: no observation is in two of the three lists, or twice in
  one.
\<close>

definition buckets_disjoint :: "metric_observation_history \<Rightarrow> bool" where
  "buckets_disjoint h =
     distinct (map oid (current_generation_metric_observations h
                        @ previous_generations_metric_observations_used h
                        @ previous_generations_metric_observations_unused h))"

text \<open>
  Every observation of the history was created before: its identity is below \<open>next_oid\<close>.
\<close>

definition oids_allocated :: "metric_observation_history \<Rightarrow> bool" where
  "oids_allocated h =
     list_all (\<lambda>ob. oid ob < next_oid h)
       (current_generation_metric_observations h
        @ previous_generations_metric_observations_used h
        @ previous_generations_metric_observations_unused h)"

section \<open>Properties of the observation feedback\<close>

subsection \<open>Rendering an observation\<close>

lemma str_rows_to_keep_empty: "str_rows_to_keep enc [] n b = Inl IndexError"
  by (simp add: str_rows_to_keep.simps)

lemma str_rows_to_keep_returns:
  "n < length df \<Longrightarrow> \<exists>k. str_rows_to_keep enc df n b = Inr k \<and> k \<le> length df"
proof (induction enc df n b rule: str_rows_to_keep.induct)
  case (1 enc df n b)
  show ?case
  proof (cases "token_count enc (df ! n) > b")
    case True
    with "1.prems" show ?thesis by (simp add: str_rows_to_keep.simps)
  next
    case False
    note fits = this
    show ?thesis
    proof (cases "int (n + 1) \<ge> int (length df) - 1")
      case True
      with fits "1.prems" show ?thesis
        by (subst str_rows_to_keep.simps) simp
    next
      case False
      then have "n + 1 < length df" by linarith
      with "1.IH" fits False "1.prems" have
        "\<exists>k. str_rows_to_keep enc df (n + 1) (b - token_count enc (df ! n)) = Inr k \<and> k \<le> length df"
        by simp
      with fits False "1.prems" show ?thesis
        by (subst str_rows_to_keep.simps) simp
    qed
  qed
qed

lemma MetricObservation_str_no_rows:
  "failure_exemplars ob = [] \<Longrightarrow> MetricObservation_str enc md ob = Inl IndexError"
  by (simp add: MetricObservation_str_def str_rows_to_keep_empty)

lemma MetricObservation_str_returns:
  assumes "failure_exemplars ob \<noteq> []"
  shows "\<exists>s. MetricObservation_str enc md ob = Inr s"
proof -
  from assms have "0 < length (failure_exemplars ob)" by simp
  from str_rows_to_keep_returns[OF this] obtain k where
    "str_rows_to_keep enc (failure_exemplars ob) 0 (example_token_budget ob) = Inr k"
    by blast
  then show ?thesis by (simp add: MetricObservation_str_def)
qed

subsection \<open>Consolidation appends to the list in use\<close>

lemma reconcile_appends:
  "reconcile py df i used cs = Inr (u, out) \<Longrightarrow>
   \<exists>new. u = used @ new \<and> map oid new = [i..<i + length cs] \<and> map summary new = map fst cs"
proof (induction cs arbitrary: i used u out)
  case Nil
  then show ?case by simp
next
  case (Cons c cs)
  from Cons.prems obtain rows u' outs where
    step: "reconcile py df (i + 1) (used @ [MetricObservation i (fst c) rows]) cs = Inr (u', outs)"
    and u: "u = u'"
    by (auto simp: Let_def split: sum.splits prod.splits)
  from Cons.IH[OF step] obtain new where
    new: "u' = (used @ [MetricObservation i (fst c) rows]) @ new"
         "map oid new = [i + 1..<i + 1 + length cs]" "map summary new = map fst cs"
    by blast
  have upt: "[i..<i + length (c # cs)] = i # [i + 1..<i + 1 + length cs]"
    by (simp add: upt_conv_Cons del: upt_Suc)
  have "u = used @ (MetricObservation i (fst c) rows # new)"
    using new u by simp
  moreover have "map oid (MetricObservation i (fst c) rows # new) = [i..<i + length (c # cs)]"
    unfolding upt using new by (simp add: MetricObservation_def)
  moreover have "map summary (MetricObservation i (fst c) rows # new) = map fst (c # cs)"
    using new by (simp add: MetricObservation_def)
  ultimately show ?case by blast
qed

lemma update_metric_observations_appends:
  assumes "update_metric_observations py h cs = Inr (h', out)"
    and "max_metric_observations h < length (previous_generations_metric_observations_used h)"
  shows "\<exists>new. previous_generations_metric_observations_used h'
                 = previous_generations_metric_observations_used h @ new
               \<and> length new = length cs
               \<and> previous_generations_metric_observations_unused h'
                 = previous_generations_metric_observations_unused h
                   @ previous_generations_metric_observations_used h"
proof -
  from assms obtain u where
    r: "reconcile py (devset_df h) (next_oid h) (previous_generations_metric_observations_used h) cs
          = Inr (u, out)"
    and h': "h' = h\<lparr>previous_generations_metric_observations_unused :=
                       previous_generations_metric_observations_unused h
                       @ previous_generations_metric_observations_used h,
                     previous_generations_metric_observations_used := u,
                     next_oid := next_oid h + length cs\<rparr>"
    by (auto simp: update_metric_observations_def split: sum.splits)
  from reconcile_appends[OF r] obtain new where
    "u = previous_generations_metric_observations_used h @ new" "map summary new = map fst cs"
    by blast
  then have "length new = length cs" by (metis length_map)
  with \<open>u = _ @ new\<close> h' show ?thesis by simp
qed

lemma update_metric_observations_below_threshold:
  "length (previous_generations_metric_observations_used h) \<le> max_metric_observations h \<Longrightarrow>
   update_metric_observations py h cs = Inr (h, [])"
  by (simp add: update_metric_observations_def)

lemma reconcile_no_parent:
  assumes "safe_strip py (Text (snd c)) = Inr parsed"
    and "\<forall>i\<in>set parsed. length used \<le> i"
  shows "reconcile py df i0 used (c # cs) =
     (case reconcile py df (i0 + 1) (used @ [MetricObservation i0 (fst c) []]) cs of
        Inl e \<Rightarrow> Inl e
      | Inr (u, outs) \<Rightarrow>
          Inr (u, (if parsed = [] then [] else [invalid_indices_warning]) @ outs))"
proof -
  have "filter (\<lambda>i. i < length used) parsed = []"
    using assms(2) by (auto simp: filter_empty_conv)
  then show ?thesis
    by (cases "parsed = []") (simp_all add: assms(1) Let_def)
qed

lemma reconcile_returns_parsed:
  "reconcile py df i0 used (c # cs) = Inr r \<Longrightarrow> \<exists>parsed. safe_strip py (Text (snd c)) = Inr parsed"
  by (cases "safe_strip py (Text (snd c))") simp_all

lemma reconcile_no_parent_evaluated:
  "update_metric_observations example_python full_history [(''merged'', ascii ''no parents'')] =
     Inr (full_history
            \<lparr>previous_generations_metric_observations_unused := example_observations 0 18,
             previous_generations_metric_observations_used :=
               example_observations 0 18 @ [MetricObservation 21 ''merged'' []],
             next_oid := 22\<rparr>, [])"
  by code_simp

text \<open>
  Claim C10. \<open>MetricObservation.__str__\<close> reads the first exemplar row before it looks at
  the number of rows: on an observation without rows it raises \<open>IndexError\<close>, and on an
  observation with at least one row it returns a string. Consolidation builds such an
  observation: when the list in use is longer than the threshold and a completion names
  no parent below the length of that list, the observation created for it has no rows,
  is in the list in use afterwards, and cannot be rendered.
\<close>

theorem str_raises_exactly_without_rows:
  "(failure_exemplars ob = [] \<longrightarrow> MetricObservation_str enc md ob = Inl IndexError) \<and>
   (failure_exemplars ob \<noteq> [] \<longrightarrow> (\<exists>s. MetricObservation_str enc md ob = Inr s)) \<and>
   (max_metric_observations h < length (previous_generations_metric_observations_used h) \<and>
    (\<forall>i\<in>set (projr (safe_strip py (Text (snd c)))).
        length (previous_generations_metric_observations_used h) \<le> i) \<and>
    update_metric_observations py h (c # cs) = Inr (h', out) \<longrightarrow>
      MetricObservation (next_oid h) (fst c) []
        \<in> set (previous_generations_metric_observations_used h') \<and>
      MetricObservation_str enc md (MetricObservation (next_oid h) (fst c) []) = Inl IndexError)"
proof (intro conjI impI)
  assume "failure_exemplars ob = []"
  then show "MetricObservation_str enc md ob = Inl IndexError"
    by (rule MetricObservation_str_no_rows)
next
  assume "failure_exemplars ob \<noteq> []"
  then show "\<exists>s. MetricObservation_str enc md ob = Inr s"
    by (rule MetricObservation_str_returns)
next
  assume a: "max_metric_observations h < length (previous_generations_metric_observations_used h) \<and>
    (\<forall>i\<in>set (projr (safe_strip py (Text (snd c)))).
        length (previous_generations_metric_observations_used h) \<le> i) \<and>
    update_metric_observations py h (c # cs) = Inr (h', out)"
  let ?used = "previous_generations_metric_observations_used h"
  let ?ob = "MetricObservation (next_oid h) (fst c) []"
  from a obtain u where
    r: "reconcile py (devset_df h) (next_oid h) ?used (c # cs) = Inr (u, out)"
    and u: "previous_generations_metric_observations_used h' = u"
    by (auto simp: update_metric_observations_def split: sum.splits)
  from reconcile_returns_parsed[OF r] obtain parsed where
    parsed: "safe_strip py (Text (snd c)) = Inr parsed" by blast
  with a have far: "\<forall>i\<in>set parsed. length ?used \<le> i" by simp
  from r obtain u' outs where
    "reconcile py (devset_df h) (next_oid h + 1) (?used @ [?ob]) cs = Inr (u', outs)" and "u = u'"
    unfolding reconcile_no_parent[OF parsed far] by (auto split: sum.splits)
  from reconcile_appends[OF this(1)] \<open>u = u'\<close> obtain new where "u = (?used @ [?ob]) @ new"
    by blast
  with u show "?ob \<in> set (previous_generations_metric_observations_used h')" by simp
next
  show "MetricObservation_str enc md (MetricObservation (next_oid h) (fst c) []) = Inl IndexError"
    by (rule MetricObservation_str_no_rows) (simp add: MetricObservation_def)
qed

theorem str_raises_exactly_without_rows_witness:
  "MetricObservation_str example_encode_len example_to_markdown
      (MetricObservation 21 ''merged'' []) = Inl IndexError \<and>
   (\<exists>s. MetricObservation_str example_encode_len example_to_markdown two_row_observation = Inr s) \<and>
   MetricObservation 21 ''merged'' []
     \<in> set (previous_generations_metric_observations_used
              (full_history
                 \<lparr>previous_generations_metric_observations_unused := example_observations 0 18,
                  previous_generations_metric_observations_used :=
                    example_observations 0 18 @ [MetricObservation 21 ''merged'' []],
                  next_oid := 22\<rparr>))"
proof -
  have e: "failure_exemplars (MetricObservation 21 ''merged'' []) = []"
    by (simp add: MetricObservation_def)
  have ne: "failure_exemplars two_row_observation \<noteq> []"
    by (simp add: two_row_observation_def MetricObservation_def)
  have big: "max_metric_observations full_history
               < length (previous_generations_metric_observations_used full_history)"
    by (simp add: full_history_def example_history_def example_observations_def)
  have "safe_strip example_python (Text (snd (''merged'', ascii ''no parents''))) = Inr []"
    by code_simp
  then have far: "\<forall>i\<in>set (projr (safe_strip example_python
                                     (Text (snd (''merged'', ascii ''no parents''))))).
               length (previous_generations_metric_observations_used full_history) \<le> i"
    by simp
  have n: "next_oid full_history = 21" by (simp add: full_history_def)
  from str_raises_exactly_without_rows[where ob = "MetricObservation 21 ''merged'' []"
        and enc = example_encode_len and md = example_to_markdown] e
  have 1: "MetricObservation_str example_encode_len example_to_markdown
             (MetricObservation 21 ''merged'' []) = Inl IndexError"
    by blast
  from str_raises_exactly_without_rows[where ob = two_row_observation
        and enc = example_encode_len and md = example_to_markdown] ne
  have 2: "\<exists>s. MetricObservation_str example_encode_len example_to_markdown two_row_observation = Inr s"
    by blast
  from str_raises_exactly_without_rows[where h = full_history and py = example_python
        and c = "(''merged'', ascii ''no parents'')" and cs = "[]"
        and enc = example_encode_len and md = example_to_markdown,
        THEN conjunct2, THEN conjunct2, rule_format,
        OF conjI[OF big conjI[OF far reconcile_no_parent_evaluated]]] n
  have 3: "MetricObservation 21 ''merged'' []
     \<in> set (previous_generations_metric_observations_used
              (full_history
                 \<lparr>previous_generations_metric_observations_unused := example_observations 0 18,
                  previous_generations_metric_observations_used :=
                    example_observations 0 18 @ [MetricObservation 21 ''merged'' []],
                  next_oid := 22\<rparr>))"
    by simp
  from 1 2 3 show ?thesis by blast
qed

subsection \<open>The none-shown text and the proposal of observations\<close>

lemma contains_prefix: "starts_with p s \<Longrightarrow> contains p s"
  by (cases s) (auto elim: starts_with.elims)

lemma starts_with_append: "starts_with p (p @ s)"
  by (induction p) auto

lemma none_shown_is_sentinel: "contains ''None Shown'' (none_shown df)"
proof -
  have "none_shown df
          = ''None Shown'' @ ('' - '' @ str_nat (length df) @ '' present, too long to show'')"
    by (simp add: none_shown_def)
  then show ?thesis
    by (metis contains_prefix starts_with_append)
qed

lemma safe_strip_EmptyList: "safe_strip py EmptyList = Inr []"
  by (simp add: safe_strip_def ascii_def decimal_value_def)

text \<open>
  Claim C4. When no row failed, the table of failing rows is empty, its rendering is the
  none-shown text, and every index field is replaced by the empty list. The loop then
  parses \<open>str([])\<close>, finds no digit and raises \<open>ValueError\<close> at the first completion:
  no observation is built.
\<close>

theorem propose_raises_when_no_row_failed:
  "propose_metric_observations py enc md h [] succeeded (c # cs) = Inl ValueError"
proof -
  have "budgeted_df_stringify enc md [] (tokens_incorrect_example h) = none_shown []"
    by (simp add: budgeted_df_stringify_def rows_to_keep.simps)
  then have s: "contains ''None Shown''
                  (budgeted_df_stringify enc md [] (tokens_incorrect_example h))"
    by (simp only: none_shown_is_sentinel)
  have "new_metric_observation py h (next_oid h) (fst c, EmptyList) = Inl ValueError"
    by (simp add: new_metric_observation_def safe_strip_EmptyList)
  with s show ?thesis
    by (simp add: propose_metric_observations_def Let_def)
qed

subsection \<open>Consolidation on a full history\<close>

text \<open>
  Claim C1. On the history with eighteen observations in use (more than the threshold 15)
  and seven completions, \<open>update_metric_observations\<close> leaves 25 observations in use:
  the eighteen it started with, still first and in order, followed by the seven new ones.
  The eighteen are also appended to the unused list.
\<close>

theorem consolidation_keeps_every_parent:
  "case update_metric_observations example_python full_history seven_completions of
     Inl e \<Rightarrow> False
   | Inr (h', out) \<Rightarrow>
       length (previous_generations_metric_observations_used h') = 25 \<and>
       take 18 (previous_generations_metric_observations_used h')
         = previous_generations_metric_observations_used full_history \<and>
       previous_generations_metric_observations_unused h'
         = previous_generations_metric_observations_used full_history"
  by code_simp

text \<open>
  Claim C2. The same history has its three lists disjoint; after
  \<open>update_metric_observations\<close> they are not: the first observation in use is then both
  in the list in use and in the unused list.
\<close>

theorem consolidation_breaks_disjointness:
  "buckets_disjoint full_history \<and>
   (case update_metric_observations example_python full_history seven_completions of
      Inl e \<Rightarrow> False
    | Inr (h', out) \<Rightarrow>
        \<not> buckets_disjoint h' \<and>
        hd (previous_generations_metric_observations_used full_history)
          \<in> set (previous_generations_metric_observations_used h')
            \<inter> set (previous_generations_metric_observations_unused h'))"
  by code_simp

subsection \<open>Rendering an observation against the renderer\<close>

text \<open>
  Claim C6. For an observation with two rows of five tokens each, under the budget 300,
  \<open>MetricObservation.__str__\<close> shows the first row only, while the token-budget renderer
  shows both rows.
\<close>

theorem str_leaves_out_a_row_that_fits:
  "MetricObservation_str example_encode_len example_to_markdown two_row_observation
     = Inr (''Summary: tip'' @ [CHR 0x0A] @ ''Failure Exemplars: ''
            @ ''EXAMPLE AT INDEX 0'' @ [CHR 0x0A] @ ''q0 | a0'' @ [CHR 0x0A, CHR 0x0A]) \<and>
   budgeted_df_stringify example_encode_len example_to_markdown
       (failure_exemplars two_row_observation) (example_token_budget two_row_observation)
     = ''EXAMPLE AT INDEX 0'' @ [CHR 0x0A] @ ''q0 | a0'' @ [CHR 0x0A, CHR 0x0A]
       @ ''EXAMPLE AT INDEX 1'' @ [CHR 0x0A] @ ''q1 | a1'' @ [CHR 0x0A, CHR 0x0A] \<and>
   str_rows_to_keep example_encode_len (failure_exemplars two_row_observation) 0 300 = Inr 1 \<and>
   rows_to_keep example_encode_len (failure_exemplars two_row_observation) 0 300 = 2"
  by code_simp

subsection \<open>The token-budget renderer\<close>

lemma rows_to_keep_bounds:
  "n \<le> length df \<Longrightarrow> n \<le> rows_to_keep enc df n b \<and> rows_to_keep enc df n b \<le> length df"
proof (induction enc df n b rule: rows_to_keep.induct)
  case (1 enc df n b)
  show ?case
  proof (cases "n < length df \<and> \<not> token_count enc (df ! n) > b")
    case True
    with "1.IH" have "n + 1 \<le> rows_to_keep enc df (n + 1) (b - token_count enc (df ! n))
        \<and> rows_to_keep enc df (n + 1) (b - token_count enc (df ! n)) \<le> length df"
      by simp
    with True show ?thesis by (subst (1 2) rows_to_keep.simps) simp
  next
    case False
    with "1.prems" show ?thesis by (subst (1 2) rows_to_keep.simps) auto
  qed
qed

lemma rows_to_keep_mono:
  "b1 \<le> b2 \<Longrightarrow> n \<le> length df \<Longrightarrow> rows_to_keep enc df n b1 \<le> rows_to_keep enc df n b2"
proof (induction enc df n b1 arbitrary: b2 rule: rows_to_keep.induct)
  case (1 enc df n b1)
  show ?case
  proof (cases "n < length df")
    case False
    then show ?thesis by (simp add: rows_to_keep.simps)
  next
    case True
    show ?thesis
    proof (cases "token_count enc (df ! n) > b1")
      case over: True
      with True have "rows_to_keep enc df n b1 = n" by (simp add: rows_to_keep.simps)
      with rows_to_keep_bounds[OF "1.prems"(2), of enc b2] show ?thesis by simp
    next
      case fits: False
      with "1.prems" have fits2: "\<not> token_count enc (df ! n) > b2" by simp
      from "1.IH"[OF True fits, of "b2 - token_count enc (df ! n)"] "1.prems" True
      have "rows_to_keep enc df (n + 1) (b1 - token_count enc (df ! n))
              \<le> rows_to_keep enc df (n + 1) (b2 - token_count enc (df ! n))"
        by simp
      with True fits fits2 show ?thesis
        by (subst (1 2) rows_to_keep.simps) simp
    qed
  qed
qed

lemma rows_to_keep_greedy:
  "n \<le> length df \<Longrightarrow>
   (\<forall>j. n \<le> j \<and> j < rows_to_keep enc df n b \<longrightarrow>
        token_count enc (df ! j) \<le> b - (\<Sum>i = n..<j. token_count enc (df ! i))) \<and>
   (rows_to_keep enc df n b < length df \<longrightarrow>
        token_count enc (df ! rows_to_keep enc df n b)
          > b - (\<Sum>i = n..<rows_to_keep enc df n b. token_count enc (df ! i)))"
proof (induction enc df n b rule: rows_to_keep.induct)
  case (1 enc df n b)
  show ?case
  proof (cases "n < length df \<and> \<not> token_count enc (df ! n) > b")
    case False
    then have "rows_to_keep enc df n b = n" by (simp add: rows_to_keep.simps)
    with False show ?thesis by auto
  next
    case True
    let ?t = "token_count enc (df ! n)"
    let ?k = "rows_to_keep enc df (n + 1) (b - ?t)"
    from True have k: "rows_to_keep enc df n b = ?k" by (subst rows_to_keep.simps) simp
    from True "1.IH" have IH:
      "(\<forall>j. n + 1 \<le> j \<and> j < ?k \<longrightarrow> token_count enc (df ! j) \<le> b - ?t - (\<Sum>i = n + 1..<j. token_count enc (df ! i)))"
      "(?k < length df \<longrightarrow> token_count enc (df ! ?k) > b - ?t - (\<Sum>i = n + 1..<?k. token_count enc (df ! i)))"
      by simp_all
    from True have nk: "n + 1 \<le> ?k" using rows_to_keep_bounds[of "n + 1" df enc "b - ?t"] by simp
    have split: "\<And>j. n + 1 \<le> j \<Longrightarrow> (\<Sum>i = n..<j. token_count enc (df ! i)) = ?t + (\<Sum>i = n + 1..<j. token_count enc (df ! i))"
      by (simp add: sum.atLeast_Suc_lessThan)
    show ?thesis
    proof (intro conjI allI impI)
      fix j assume j: "n \<le> j \<and> j < rows_to_keep enc df n b"
      show "token_count enc (df ! j) \<le> b - (\<Sum>i = n..<j. token_count enc (df ! i))"
      proof (cases "j = n")
        case True
        with \<open>n < length df \<and> \<not> token_count enc (df ! n) > b\<close> show ?thesis by simp
      next
        case False
        with j have j1: "n + 1 \<le> j" by simp
        with j k IH(1) have "token_count enc (df ! j) \<le> b - ?t - (\<Sum>i = n + 1..<j. token_count enc (df ! i))"
          by simp
        with split[OF j1] show ?thesis by simp
      qed
    next
      assume "rows_to_keep enc df n b < length df"
      with k IH(2) have "token_count enc (df ! ?k) > b - ?t - (\<Sum>i = n + 1..<?k. token_count enc (df ! i))"
        by simp
      with split[OF nk] k show "token_count enc (df ! rows_to_keep enc df n b)
          > b - (\<Sum>i = n..<rows_to_keep enc df n b. token_count enc (df ! i))"
        by simp
    qed
  qed
qed

lemma rows_to_keep_none:
  "df = [] \<or> b < token_count enc (hd df) \<Longrightarrow> rows_to_keep enc df 0 b = 0"
  by (cases df) (auto simp: rows_to_keep.simps)

text \<open>
  Claim C8, as stated, fails for a budget of 0 when the first row costs no token: the
  table with the single row whose one cell is the empty string is rendered with that row.
\<close>

theorem budgeted_df_stringify_zero_budget_counterexample:
  "rows_to_keep example_encode_len [(0, [[]])] 0 0 = 1 \<and>
   budgeted_df_stringify example_encode_len example_to_markdown [(0, [[]])] 0
     = ''EXAMPLE AT INDEX 0'' @ [CHR 0x0A, CHR 0x0A, CHR 0x0A] \<and>
   budgeted_df_stringify example_encode_len example_to_markdown [(0, [[]])] 0
     \<noteq> none_shown [(0, [[]])]"
  by code_simp

text \<open>
  Claim C8, amended. The number of rows \<open>budgeted_df_stringify\<close> includes does not
  decrease when the budget grows. The rows are included in their order: every included
  row fits in what the rows before it leave of the budget, and the first row left out,
  if there is one, does not fit. When at least one row is included the result is the
  text of the included rows; for an empty table, or a budget smaller than the token cost
  of the first row, the result is the none-shown text with the number of rows.
\<close>

theorem budgeted_df_stringify_monotone_greedy:
  "(b1 \<le> b2 \<longrightarrow> rows_to_keep enc df 0 b1 \<le> rows_to_keep enc df 0 b2) \<and>
   rows_to_keep enc df 0 b \<le> length df \<and>
   (\<forall>j. j < rows_to_keep enc df 0 b \<longrightarrow>
        token_count enc (df ! j) \<le> b - (\<Sum>i = 0..<j. token_count enc (df ! i))) \<and>
   (rows_to_keep enc df 0 b < length df \<longrightarrow>
        token_count enc (df ! rows_to_keep enc df 0 b)
          > b - (\<Sum>i = 0..<rows_to_keep enc df 0 b. token_count enc (df ! i))) \<and>
   (0 < rows_to_keep enc df 0 b \<longrightarrow>
        budgeted_df_stringify enc md df b
          = safely_markdownify md (take (rows_to_keep enc df 0 b) df)) \<and>
   (df = [] \<or> b < token_count enc (hd df) \<longrightarrow>
        budgeted_df_stringify enc md df b
          = ''None Shown - '' @ str_nat (length df) @ '' present, too long to show'')"
proof (intro conjI impI)
  assume "b1 \<le> b2"
  then show "rows_to_keep enc df 0 b1 \<le> rows_to_keep enc df 0 b2"
    by (rule rows_to_keep_mono) simp
next
  show "rows_to_keep enc df 0 b \<le> length df"
    using rows_to_keep_bounds[of 0 df enc b] by simp
next
  show "\<forall>j. j < rows_to_keep enc df 0 b \<longrightarrow>
        token_count enc (df ! j) \<le> b - (\<Sum>i = 0..<j. token_count enc (df ! i))"
    using rows_to_keep_greedy[of 0 df enc b] by simp
next
  assume "rows_to_keep enc df 0 b < length df"
  then show "token_count enc (df ! rows_to_keep enc df 0 b)
          > b - (\<Sum>i = 0..<rows_to_keep enc df 0 b. token_count enc (df ! i))"
    using rows_to_keep_greedy[of 0 df enc b] by simp
next
  assume "0 < rows_to_keep enc df 0 b"
  then show "budgeted_df_stringify enc md df b
          = safely_markdownify md (take (rows_to_keep enc df 0 b) df)"
    by (simp add: budgeted_df_stringify_def)
next
  assume "df = [] \<or> b < token_count enc (hd df)"
  then have "rows_to_keep enc df 0 b = 0" by (rule rows_to_keep_none)
  then show "budgeted_df_stringify enc md df b
          = ''None Shown - '' @ str_nat (length df) @ '' present, too long to show''"
    by (simp add: budgeted_df_stringify_def none_shown_def)
qed

theorem budgeted_df_stringify_monotone_greedy_witness:
  "rows_to_keep example_encode_len (devset_df example_history) 0 5
     \<le> rows_to_keep example_encode_len (devset_df example_history) 0 10 \<and>
   rows_to_keep example_encode_len (devset_df example_history) 0 10 = 2 \<and>
   token_count example_encode_len (devset_df example_history ! 0) \<le> 10 \<and>
   token_count example_encode_len (devset_df example_history ! 1)
     \<le> 10 - token_count example_encode_len (devset_df example_history ! 0) \<and>
   token_count example_encode_len (devset_df example_history ! 2) > 0 \<and>
   budgeted_df_stringify example_encode_len example_to_markdown (devset_df example_history) 10
     = safely_markdownify example_to_markdown (take 2 (devset_df example_history)) \<and>
   budgeted_df_stringify example_encode_len example_to_markdown (devset_df example_history) 4
     = ''None Shown - 3 present, too long to show''"
proof -
  let ?df = "devset_df example_history"
  have k: "rows_to_keep example_encode_len ?df 0 10 = 2" by code_simp
  have len: "length ?df = 3" by (simp add: example_history_def)
  have small: "?df = [] \<or> 4 < token_count example_encode_len (hd ?df)" by code_simp
  have s3: "str_nat (length ?df) = ''3''" by code_simp
  have sum1: "(\<Sum>i = 0..<Suc 0. token_count example_encode_len (?df ! i))
               = token_count example_encode_len (?df ! 0)"
    by simp
  have sum2: "(\<Sum>i = 0..<2. token_count example_encode_len (?df ! i)) = 10"
    by code_simp
  note t = budgeted_df_stringify_monotone_greedy[where enc = example_encode_len
      and md = example_to_markdown and df = ?df]
  from t[where ?b1.0 = 5 and ?b2.0 = 10 and b = 10]
  have 1: "rows_to_keep example_encode_len ?df 0 5 \<le> rows_to_keep example_encode_len ?df 0 10"
    by simp
  from t[where b = 10 and ?b1.0 = 0 and ?b2.0 = 0] k
  have g: "\<forall>j. j < 2 \<longrightarrow> token_count example_encode_len (?df ! j)
              \<le> 10 - (\<Sum>i = 0..<j. token_count example_encode_len (?df ! i))"
    and stop: "2 < length ?df \<longrightarrow> token_count example_encode_len (?df ! 2)
              > 10 - (\<Sum>i = 0..<2. token_count example_encode_len (?df ! i))"
    and shown: "budgeted_df_stringify example_encode_len example_to_markdown ?df 10
              = safely_markdownify example_to_markdown (take 2 ?df)"
    by simp_all
  from g have 2: "token_count example_encode_len (?df ! 0) \<le> 10" by force
  from g[rule_format, of 1] sum1
  have 3: "token_count example_encode_len (?df ! 1) \<le> 10 - token_count example_encode_len (?df ! 0)"
    by simp
  from stop len sum2 have 4: "token_count example_encode_len (?df ! 2) > 0" by simp
  from t[where b = 4 and ?b1.0 = 0 and ?b2.0 = 0] small s3
  have 5: "budgeted_df_stringify example_encode_len example_to_markdown ?df 4
     = ''None Shown - 3 present, too long to show''"
    by simp
  from 1 k 2 3 4 shown 5 show ?thesis by blast
qed

subsection \<open>Proposing observations\<close>

lemma loc_devset:
  assumes wf: "df = zip [0..<length dev] dev"
    and "\<forall>l\<in>set ls. l < length dev"
  shows "loc df ls = Inr (map (\<lambda>i. (i, dev ! i)) ls)"
  using assms(2)
proof (induction ls)
  case Nil
  then show ?case by simp
next
  case (Cons l ls)
  then have l: "l < length dev" by simp
  have "map_of (zip [0..<length dev] dev) ([0..<length dev] ! l) = Some (dev ! l)"
    using l by (intro map_of_zip_nth) simp_all
  with l have "map_of df l = Some (dev ! l)" by (simp add: wf)
  with Cons show ?case by simp
qed

lemma filter_shorter_iff:
  "length (filter P xs) < length xs \<longleftrightarrow> (\<exists>x\<in>set xs. \<not> P x)"
proof
  assume "length (filter P xs) < length xs"
  then have "filter P xs \<noteq> xs" by auto
  then show "\<exists>x\<in>set xs. \<not> P x" by (auto simp: filter_id_conv)
next
  assume "\<exists>x\<in>set xs. \<not> P x"
  then show "length (filter P xs) < length xs" by (auto intro: length_filter_less)
qed

lemma new_metric_observation_devset:
  assumes wf: "devset_df h = zip [0..<length (devset h)] (devset h)"
    and ok: "\<exists>cites. safe_strip py (snd c) = Inr cites \<and> cites \<noteq> []"
  shows "new_metric_observation py h i c =
     Inr (MetricObservation i (fst c)
            (map (\<lambda>k. (k, devset h ! k))
                 (filter (\<lambda>k. k < length (devset h)) (projr (safe_strip py (snd c))))),
          if (\<exists>k\<in>set (projr (safe_strip py (snd c))). length (devset h) \<le> k)
          then [invalid_indices_warning] else [])"
proof -
  from ok obtain cites where p: "safe_strip py (snd c) = Inr cites" and ne: "cites \<noteq> []"
    by blast
  let ?kept = "filter (\<lambda>k. k < length (devset h)) cites"
  have "loc (devset_df h) ?kept = Inr (map (\<lambda>k. (k, devset h ! k)) ?kept)"
    by (rule loc_devset[OF wf]) simp
  moreover have "length ?kept < length cites
                  \<longleftrightarrow> (\<exists>k\<in>set cites. length (devset h) \<le> k)"
    by (auto simp: filter_shorter_iff not_less)
  ultimately show ?thesis
    using ne by (simp add: new_metric_observation_def Let_def p)
qed

lemma new_metric_observations_devset:
  assumes wf: "devset_df h = zip [0..<length (devset h)] (devset h)"
    and ne: "\<forall>c\<in>set cs. \<exists>cites. safe_strip py (snd c) = Inr cites \<and> cites \<noteq> []"
  shows "\<exists>obs out. new_metric_observations py h i cs = Inr (obs, out) \<and>
     map failure_exemplars obs
       = map (\<lambda>c. map (\<lambda>k. (k, devset h ! k))
                     (filter (\<lambda>k. k < length (devset h)) (projr (safe_strip py (snd c))))) cs \<and>
     map summary obs = map fst cs \<and>
     map oid obs = [i..<i + length cs] \<and>
     (invalid_indices_warning \<in> set out
        \<longleftrightarrow> (\<exists>c\<in>set cs. \<exists>k\<in>set (projr (safe_strip py (snd c))). length (devset h) \<le> k)) \<and>
     set out \<subseteq> {invalid_indices_warning}"
  using ne
proof (induction cs arbitrary: i)
  case Nil
  then show ?case by simp
next
  case (Cons c cs)
  then have c: "\<exists>cites. safe_strip py (snd c) = Inr cites \<and> cites \<noteq> []"
    and rest: "\<forall>c\<in>set cs. \<exists>cites. safe_strip py (snd c) = Inr cites \<and> cites \<noteq> []"
    by simp_all
  from Cons.IH[OF rest, of "i + 1"] obtain obs out where
    r: "new_metric_observations py h (i + 1) cs = Inr (obs, out)"
    and fe: "map failure_exemplars obs
       = map (\<lambda>c. map (\<lambda>k. (k, devset h ! k))
                     (filter (\<lambda>k. k < length (devset h)) (projr (safe_strip py (snd c))))) cs"
    and sm: "map summary obs = map fst cs"
    and oi: "map oid obs = [i + 1..<i + 1 + length cs]"
    and w: "invalid_indices_warning \<in> set out
        \<longleftrightarrow> (\<exists>c\<in>set cs. \<exists>k\<in>set (projr (safe_strip py (snd c))). length (devset h) \<le> k)"
    and o: "set out \<subseteq> {invalid_indices_warning}"
    by blast
  have upt: "[i..<i + length (c # cs)] = i # [i + 1..<i + 1 + length cs]"
    by (simp add: upt_conv_Cons del: upt_Suc)
  show ?case
    unfolding upt
    using r fe sm oi w o
    by (simp add: new_metric_observation_devset[OF wf c] MetricObservation_def) blast
qed

lemma row_in_table: "k < length dev \<Longrightarrow> (k, dev ! k) \<in> set (zip [0..<length dev] dev)"
  by (auto simp: set_zip intro!: exI[of _ k])

lemma zip_map_same: "zip (map f xs) (map g xs) = map (\<lambda>x. (f x, g x)) xs"
  by (induction xs) simp_all

text \<open>
  Claim C3, as stated, fails: the rows of an observation are looked up in the table of the
  whole dataset, not in the failing rows. With the first example as the only failing row
  (its rendering is not the none-shown text) and a completion that cites index 1, the
  observation built has row 1, which is not a failing row.
\<close>

theorem propose_exemplars_counterexample:
  "case propose_metric_observations example_python example_encode_len example_to_markdown example_history
          [(0, [''q0'', ''a0''])] [(1, [''q1'', ''a1'']), (2, [''q2'', ''a2''])]
          [(''tip'', ascii ''[1]'')] of
     Inl e \<Rightarrow> False
   | Inr (h', out) \<Rightarrow>
       \<not> contains ''None Shown''
            (budgeted_df_stringify example_encode_len example_to_markdown
               [(0, [''q0'', ''a0''])] (tokens_incorrect_example example_history)) \<and>
       map failure_exemplars (current_generation_metric_observations h')
         = [[(1, [''q1'', ''a1''])]] \<and>
       \<not> set (failure_exemplars (hd (current_generation_metric_observations h')))
            \<subseteq> set [(0, [''q0'', ''a0''])]"
  by code_simp

text \<open>
  Claim C3, amended. Let the table of the dataset be the one \<open>exemplars_to_df\<close> builds,
  the rendering of the failing rows not be the none-shown text, and \<open>safe_strip\<close> return
  a non-empty list of indices on the index field of every completion: the field has a
  decimal digit of Unicode, and no run of digits longer than the limit of \<open>int\<close>. Then
  \<open>propose_metric_observations\<close> returns, with one
  current observation for each completion: its rows are the rows of the dataset table at
  the cited indices below the size of the dataset, in the order cited, so they are rows
  of the dataset table. Indices at or above the size of the dataset are left out, and a
  warning is printed exactly when some completion cites such an index.
\<close>

theorem propose_exemplars_are_devset_rows:
  assumes wf: "devset_df h = zip [0..<length (devset h)] (devset h)"
    and shown: "\<not> contains ''None Shown''
                   (budgeted_df_stringify enc md failed (tokens_incorrect_example h))"
    and parsed: "\<forall>c\<in>set completions.
                   \<exists>cites. safe_strip py (Text (snd c)) = Inr cites \<and> cites \<noteq> []"
  shows "\<exists>h' out.
     propose_metric_observations py enc md h failed succeeded completions = Inr (h', out) \<and>
     map summary (current_generation_metric_observations h') = map fst completions \<and>
     map failure_exemplars (current_generation_metric_observations h')
       = map (\<lambda>c. map (\<lambda>k. (k, devset h ! k))
                     (filter (\<lambda>k. k < length (devset h)) (projr (safe_strip py (Text (snd c))))))
             completions \<and>
     (\<forall>ob\<in>set (current_generation_metric_observations h').
         set (failure_exemplars ob) \<subseteq> set (devset_df h)) \<and>
     (invalid_indices_warning \<in> set out
        \<longleftrightarrow> (\<exists>c\<in>set completions. \<exists>k\<in>set (projr (safe_strip py (Text (snd c)))).
               length (devset h) \<le> k))"
proof -
  let ?cs = "map (\<lambda>c. (fst c, Text (snd c))) completions"
  let ?rows = "\<lambda>c. map (\<lambda>k. (k, devset h ! k))
                     (filter (\<lambda>k. k < length (devset h)) (projr (safe_strip py (Text (snd c)))))"
  have ne: "\<forall>c\<in>set ?cs. \<exists>cites. safe_strip py (snd c) = Inr cites \<and> cites \<noteq> []"
    using parsed by simp
  from new_metric_observations_devset[OF wf ne, of "next_oid h"] obtain obs out where
    r: "new_metric_observations py h (next_oid h) ?cs = Inr (obs, out)"
    and fe: "map failure_exemplars obs = map ?rows completions"
    and sm: "map summary obs = map fst completions"
    and w: "invalid_indices_warning \<in> set out
        \<longleftrightarrow> (\<exists>c\<in>set completions. \<exists>k\<in>set (projr (safe_strip py (Text (snd c)))).
               length (devset h) \<le> k)"
    by (auto simp: o_def)
  let ?used = "previous_generations_metric_observations_used h
               @ current_generation_metric_observations h"
  let ?h' = "h\<lparr>previous_generations_metric_observations_used := ?used,
               current_generation_metric_observations := obs,
               next_oid := next_oid h + length obs\<rparr>"
  let ?out = "out @ [StrList (map summary ?used)]"
  have p: "propose_metric_observations py enc md h failed succeeded completions = Inr (?h', ?out)"
    using shown r by (simp add: propose_metric_observations_def Let_def zip_map_same)
  have sub: "\<forall>ob\<in>set obs. set (failure_exemplars ob) \<subseteq> set (devset_df h)"
  proof
    fix ob assume "ob \<in> set obs"
    then have "failure_exemplars ob \<in> set (map failure_exemplars obs)" by simp
    then obtain c :: "string \<times> unicode" where "failure_exemplars ob = ?rows c"
      unfolding fe by auto
    moreover have "set (?rows c) \<subseteq> set (zip [0..<length (devset h)] (devset h))"
      by (auto intro: row_in_table)
    ultimately show "set (failure_exemplars ob) \<subseteq> set (devset_df h)" by (simp add: wf)
  qed
  have w': "invalid_indices_warning \<in> set ?out
        \<longleftrightarrow> (\<exists>c\<in>set completions. \<exists>k\<in>set (projr (safe_strip py (Text (snd c)))).
               length (devset h) \<le> k)"
    using w by (simp add: invalid_indices_warning_def)
  show ?thesis
    apply (rule exI[of _ ?h'], rule exI[of _ ?out])
    using p sm fe sub w' by simp
qed

theorem propose_exemplars_are_devset_rows_witness:
  "\<exists>h' out.
     propose_metric_observations example_python example_encode_len example_to_markdown example_history
         [(0, [''q0'', ''a0''])] [(1, [''q1'', ''a1'']), (2, [''q2'', ''a2''])]
         [(''tip'', ascii ''[1, 7]'')] = Inr (h', out) \<and>
     map summary (current_generation_metric_observations h') = [''tip''] \<and>
     map failure_exemplars (current_generation_metric_observations h')
       = [[(1, [''q1'', ''a1''])]] \<and>
     invalid_indices_warning \<in> set out"
proof -
  have wf: "devset_df example_history
              = zip [0..<length (devset example_history)] (devset example_history)"
    by code_simp
  have shown: "\<not> contains ''None Shown''
                   (budgeted_df_stringify example_encode_len example_to_markdown
                      [(0, [''q0'', ''a0''])] (tokens_incorrect_example example_history))"
    by code_simp
  have p17: "safe_strip example_python (Text (ascii ''[1, 7]'')) = Inr [1, 7]" by code_simp
  have parsed: "\<forall>c\<in>set [(''tip'', ascii ''[1, 7]'')].
                  \<exists>cites. safe_strip example_python (Text (snd c)) = Inr cites \<and> cites \<noteq> []"
    by (simp add: p17)
  have len: "length (devset example_history) = 3"
    by (simp add: example_history_def example_devset_def)
  have row: "devset example_history ! Suc 0 = [''q1'', ''a1'']"
    by (simp add: example_history_def example_devset_def)
  from propose_exemplars_are_devset_rows[OF wf shown parsed,
      of "[(1, [''q1'', ''a1'']), (2, [''q2'', ''a2''])]"]
  obtain h' out where
    "propose_metric_observations example_python example_encode_len example_to_markdown example_history
         [(0, [''q0'', ''a0''])] [(1, [''q1'', ''a1'']), (2, [''q2'', ''a2''])]
         [(''tip'', ascii ''[1, 7]'')] = Inr (h', out)"
    "map summary (current_generation_metric_observations h') = [''tip'']"
    "map failure_exemplars (current_generation_metric_observations h')
       = [[(1, [''q1'', ''a1''])]]"
    "invalid_indices_warning \<in> set out"
    by (auto simp: p17 len row)
  then show ?thesis
    by (intro exI[of _ h'] exI[of _ out]) simp
qed

text \<open>
  In the same setting the call raises \<open>ValueError\<close> as soon as the index field of a
  completion has no digit, or has a run of digits that \<open>int\<close> refuses.
\<close>

lemma py_ints_error: "py_ints py ms = Inl e \<Longrightarrow> e = ValueError"
  by (induction ms arbitrary: e)
     (auto simp: py_int_def split: sum.splits if_splits)

lemma safe_strip_error: "safe_strip py t = Inl e \<Longrightarrow> e = ValueError"
  unfolding safe_strip_def by (rule py_ints_error)

lemma new_metric_observations_empty_parse:
  fixes cs :: "(string \<times> field_value) list"
  assumes wf: "devset_df h = zip [0..<length (devset h)] (devset h)"
    and "\<exists>c\<in>set cs. \<not> (\<exists>cites. safe_strip py (snd c) = Inr cites \<and> cites \<noteq> [])"
  shows "new_metric_observations py h i cs = Inl ValueError"
  using assms(2)
proof (induction cs arbitrary: i)
  case Nil
  then show ?case by simp
next
  case (Cons c cs)
  show ?case
  proof (cases "\<exists>cites. safe_strip py (snd c) = Inr cites \<and> cites \<noteq> []")
    case False
    show ?thesis
    proof (cases "safe_strip py (snd c)")
      case (Inl e)
      with safe_strip_error[OF Inl] show ?thesis by (simp add: new_metric_observation_def)
    next
      case (Inr cites)
      with False have "cites = []" by simp
      with Inr show ?thesis by (simp add: new_metric_observation_def)
    qed
  next
    case True
    with Cons.prems
    have "\<exists>c\<in>set cs. \<not> (\<exists>cites. safe_strip py (snd c) = Inr cites \<and> cites \<noteq> [])" by auto
    from Cons.IH[OF this] show ?thesis
      by (simp add: new_metric_observation_devset[OF wf True])
  qed
qed

lemma propose_raises_on_empty_parse:
  assumes wf: "devset_df h = zip [0..<length (devset h)] (devset h)"
    and shown: "\<not> contains ''None Shown''
                   (budgeted_df_stringify enc md failed (tokens_incorrect_example h))"
    and empty: "\<exists>c\<in>set completions.
                  \<not> (\<exists>cites. safe_strip py (Text (snd c)) = Inr cites \<and> cites \<noteq> [])"
  shows "propose_metric_observations py enc md h failed succeeded completions = Inl ValueError"
proof -
  have "\<exists>c\<in>set (map (\<lambda>c. (fst c, Text (snd c))) completions).
          \<not> (\<exists>cites. safe_strip py (snd c) = Inr cites \<and> cites \<noteq> [])"
    using empty by simp
  from new_metric_observations_empty_parse[OF wf this, of "next_oid h"] shown
  show ?thesis
    by (simp add: propose_metric_observations_def Let_def zip_map_same)
qed

text \<open>
  The parsing of index fields on texts with digits above ASCII and on a run of digits
  longer than the limit of the interpreter.
\<close>

lemma safe_strip_arabic_indic:
  "safe_strip example_python (Text [49, 1635]) = Inr [13] \<and>
   safe_strip example_python (Text [1635]) = Inr [3]"
  by code_simp

lemma findall_digits_all_digits:
  "\<forall>c\<in>set ds. decimal_value py c \<noteq> None \<Longrightarrow>
   findall_digits py cur ds = (if cur @ ds = [] then [] else [cur @ ds])"
  by (induction ds arbitrary: cur) auto

lemma safe_strip_long_run:
  "safe_strip example_python (Text (replicate 5000 57)) = Inl ValueError"
proof -
  have d: "\<forall>c\<in>set (replicate 5000 57). decimal_value example_python c \<noteq> None"
    by (simp add: decimal_value_def)
  have "findall_digits example_python [] (replicate 5000 57) = [replicate 5000 57]"
    using findall_digits_all_digits[OF d, of "[]"] by simp
  then show ?thesis
    by (simp add: safe_strip_def py_int_def example_python_def)
qed

section \<open>Properties of the evaluated candidates\<close>

lemma foldl_first_max:
  fixes key :: "'a \<Rightarrow> real"
  shows "\<exists>pre post. m # ys = pre @ foldl (\<lambda>best y. if key y > key best then y else best) m ys # post \<and>
     (\<forall>x\<in>set pre. key x < key (foldl (\<lambda>best y. if key y > key best then y else best) m ys)) \<and>
     (\<forall>x\<in>set post. key x \<le> key (foldl (\<lambda>best y. if key y > key best then y else best) m ys))"
proof (induction ys arbitrary: m)
  case Nil
  show ?case by (rule exI[of _ "[]"], rule exI[of _ "[]"]) simp
next
  case (Cons y ys)
  let ?step = "\<lambda>best y. if key y > key best then y else best"
  show ?case
  proof (cases "key y > key m")
    case True
    define r where "r = foldl ?step y ys"
    have F: "foldl ?step m (y # ys) = r" using True by (simp add: r_def)
    from Cons.IH[of y] obtain pre post where
      e: "y # ys = pre @ r # post"
      and lt: "\<forall>x\<in>set pre. key x < key r"
      and le: "\<forall>x\<in>set post. key x \<le> key r"
      unfolding r_def by blast
    have "key y \<le> key r"
    proof (cases pre)
      case Nil
      with e have "y = r" by auto
      then show ?thesis by simp
    next
      case (Cons a pre')
      with e have "y \<in> set pre" by auto
      with lt show ?thesis by force
    qed
    with True have m: "key m < key r" by simp
    have "m # y # ys = (m # pre) @ r # post" using e by auto
    moreover have "\<forall>x\<in>set (m # pre). key x < key r" using lt m by auto
    ultimately show ?thesis
      unfolding F using le by blast
  next
    case False
    define r where "r = foldl ?step m ys"
    have F: "foldl ?step m (y # ys) = r" using False by (simp add: r_def)
    from Cons.IH[of m] obtain pre post where
      e: "m # ys = pre @ r # post"
      and lt: "\<forall>x\<in>set pre. key x < key r"
      and le: "\<forall>x\<in>set post. key x \<le> key r"
      unfolding r_def by blast
    show ?thesis
    proof (cases pre)
      case Nil
      with e have m: "m = r" and ys: "ys = post" by auto
      have "m # y # ys = [] @ r # (y # post)" using m ys by auto
      moreover have "\<forall>x\<in>set (y # post). key x \<le> key r" using False le m by auto
      moreover have "\<forall>x\<in>set []. key x < key r" by simp
      ultimately show ?thesis
        unfolding F by blast
    next
      case (Cons a pre')
      with e have a: "a = m" and ys: "ys = pre' @ r # post" by auto
      from Cons a lt have "key m < key r" by simp
      with False have y: "key y < key r" by simp
      have "m # y # ys = (m # y # pre') @ r # post" using ys by auto
      moreover have "\<forall>x\<in>set (m # y # pre'). key x < key r" using lt Cons a y by auto
      ultimately show ?thesis
        unfolding F using le by blast
    qed
  qed
qed

lemma py_max_first_max:
  assumes "xs \<noteq> []"
  shows "\<exists>pre m post. py_max key xs = Inr m \<and> xs = pre @ m # post \<and>
           (\<forall>x\<in>set pre. key x < key m) \<and> (\<forall>x\<in>set post. key x \<le> key m)"
proof -
  from assms obtain x ys where xs: "xs = x # ys" by (cases xs) auto
  from foldl_first_max[of x ys key] show ?thesis
    unfolding xs by (auto simp del: foldl_Cons)
qed

lemma update_absent: "map_of al k = None \<Longrightarrow> AList.update k v al = al @ [(k, v)]"
  by (induction al) (auto split: if_splits)

lemma record_call_cases:
  "record_call E c =
     (case map_of E (call_key c) of
        None \<Rightarrow> E @ [(call_key c, call_record c)]
      | Some old \<Rightarrow>
          if score old < call_score c then AList.update (call_key c) (call_record c) E else E)"
  by (cases c)
     (auto simp: record_call_def record_candidate_def call_key_def call_score_def
        call_record_def update_absent not_le split: option.splits)

lemma score_call_record: "score (call_record c) = call_score c"
  by (cases c) (simp add: call_record_def call_score_def)

lemma record_call_if:
  "record_call E c =
     (if (case map_of E (call_key c) of None \<Rightarrow> True | Some old \<Rightarrow> score old < call_score c)
      then AList.update (call_key c) (call_record c) E else E)"
  by (cases c)
     (auto simp: record_call_def record_candidate_def call_key_def call_score_def
        call_record_def not_le split: option.splits)

lemma record_call_map_of:
  "map_of (record_call E c) k =
     (if k = call_key c \<and>
         (case map_of E (call_key c) of None \<Rightarrow> True | Some old \<Rightarrow> score old < call_score c)
      then Some (call_record c) else map_of E k)"
  by (simp add: record_call_if update_conv')

lemma record_call_distinct:
  "distinct (map fst E) \<Longrightarrow> distinct (map fst (record_call E c))"
  by (simp add: record_call_if distinct_update)

lemma record_calls_snoc: "record_calls (calls @ [c]) = record_call (record_calls calls) c"
  by (simp add: record_calls_def)

lemma record_calls_distinct: "distinct (map fst (record_calls calls))"
  by (induction calls rule: rev_induct)
     (simp_all add: record_calls_snoc record_call_distinct, simp add: record_calls_def)

lemma record_calls_stored_seen:
  "map_of (record_calls calls) k = Some r \<Longrightarrow>
   \<exists>c\<in>set calls. call_key c = k \<and> call_score c = score r"
proof (induction calls arbitrary: k r rule: rev_induct)
  case Nil
  then show ?case by (simp add: record_calls_def)
next
  case (snoc c calls)
  show ?case
  proof (cases "map_of (record_calls calls) k = Some r")
    case True
    from snoc.IH[OF this] show ?thesis by auto
  next
    case False
    with snoc.prems have "k = call_key c" "r = call_record c"
      by (auto simp: record_calls_snoc record_call_map_of split: if_splits)
    then show ?thesis by (auto simp: score_call_record)
  qed
qed

lemma record_calls_seen_stored:
  "c \<in> set calls \<Longrightarrow>
   \<exists>r. map_of (record_calls calls) (call_key c) = Some r \<and> call_score c \<le> score r"
proof (induction calls rule: rev_induct)
  case Nil
  then show ?case by simp
next
  case (snoc c' calls)
  let ?E = "record_calls calls"
  show ?case
  proof (cases "call_key c = call_key c'")
    case False
    with snoc have "c \<in> set calls" by auto
    from snoc.IH[OF this] False show ?thesis
      by (simp add: record_calls_snoc record_call_map_of)
  next
    case same: True
    show ?thesis
    proof (cases "map_of ?E (call_key c')")
      case None
      have "c \<notin> set calls"
      proof
        assume "c \<in> set calls"
        from snoc.IH[OF this] same None show False by simp
      qed
      with snoc.prems have "c = c'" by simp
      with None show ?thesis
        by (simp add: record_calls_snoc record_call_map_of score_call_record)
    next
      case (Some old)
      show ?thesis
      proof (cases "c \<in> set calls")
        case True
        from snoc.IH[OF this] same Some have "call_score c \<le> score old" by simp
        with Some same show ?thesis
          by (auto simp: record_calls_snoc record_call_map_of score_call_record)
      next
        case False
        with snoc.prems have "c = c'" by simp
        with Some show ?thesis
          by (auto simp: record_calls_snoc record_call_map_of score_call_record not_less)
      qed
    qed
  qed
qed

lemma record_calls_nonempty: "calls \<noteq> [] \<Longrightarrow> record_calls calls \<noteq> []"
proof -
  assume "calls \<noteq> []"
  then have "hd calls \<in> set calls" by simp
  from record_calls_seen_stored[OF this] show ?thesis by auto
qed

lemma best_candidate_of_calls:
  assumes "calls \<noteq> []"
  shows "\<exists>before best after.
           best_candidate (record_calls calls) = Inr best \<and>
           map snd (record_calls calls) = before @ best # after \<and>
           (\<forall>r\<in>set before. score r < score best) \<and>
           (\<forall>r\<in>set after. score r \<le> score best) \<and>
           score best = Max (call_score ` set calls)"
proof -
  let ?E = "record_calls calls"
  from record_calls_nonempty[OF assms] have "map snd ?E \<noteq> []" by simp
  from py_max_first_max[OF this, of score] obtain before best after where
    b: "best_candidate ?E = Inr best"
    and split: "map snd ?E = before @ best # after"
    and lt: "\<forall>r\<in>set before. score r < score best"
    and le: "\<forall>r\<in>set after. score r \<le> score best"
    unfolding best_candidate_def by blast
  have all_le: "\<forall>r\<in>set (map snd ?E). score r \<le> score best"
    unfolding split using lt le by auto
  have "best \<in> set (map snd ?E)" unfolding split by simp
  then obtain k where "(k, best) \<in> set ?E" by auto
  with record_calls_distinct[of calls] have "map_of ?E k = Some best" by simp
  from record_calls_stored_seen[OF this] have mem: "score best \<in> call_score ` set calls"
    by force
  have ub: "\<forall>s\<in>call_score ` set calls. s \<le> score best"
  proof
    fix s assume "s \<in> call_score ` set calls"
    then obtain c where c: "c \<in> set calls" "s = call_score c" by auto
    from record_calls_seen_stored[OF c(1)] obtain r where
      r: "map_of ?E (call_key c) = Some r" "call_score c \<le> score r" by blast
    from map_of_SomeD[OF r(1)] have "r \<in> set (map snd ?E)" by force
    with all_le r(2) c(2) show "s \<le> score best" by force
  qed
  have "Max (call_score ` set calls) = score best"
    by (rule Max_eqI) (use mem ub in auto)
  with b split lt le show ?thesis by metis
qed

text \<open>
  Claim C5. Let the dictionary of a predictor be the result of any sequence of calls of
  the recording step. A further call with an identity not in the dictionary appends an
  entry for it; a call with an identity in the dictionary and a score not above the
  stored one leaves the dictionary as it is; a call with a greater score replaces the
  entry of that identity and keeps the order of the identities. No identity is stored
  twice. The best candidate of the empty dictionary raises; otherwise it is the first of
  the entries with the greatest score, and its score is the greatest score of all calls.
\<close>

theorem record_and_best_candidate:
  "(map_of (record_calls calls) (ins, pre) = None \<longrightarrow>
      record_candidate (record_calls calls) ins pre sc prog d
        = record_calls calls
          @ [((ins, pre),
              \<lparr>score = sc, program = prog, instruction = ins, prefix = pre, depth = d\<rparr>)]) \<and>
   (\<forall>old. map_of (record_calls calls) (ins, pre) = Some old \<and> sc \<le> score old \<longrightarrow>
      record_candidate (record_calls calls) ins pre sc prog d = record_calls calls) \<and>
   (\<forall>old. map_of (record_calls calls) (ins, pre) = Some old \<and> score old < sc \<longrightarrow>
      map fst (record_candidate (record_calls calls) ins pre sc prog d)
        = map fst (record_calls calls) \<and>
      map_of (record_candidate (record_calls calls) ins pre sc prog d)
        = (map_of (record_calls calls))
            ((ins, pre) \<mapsto>
              \<lparr>score = sc, program = prog, instruction = ins, prefix = pre, depth = d\<rparr>)) \<and>
   distinct (map fst (record_calls calls)) \<and>
   (calls = [] \<longrightarrow> best_candidate (record_calls calls) = Inl ValueError) \<and>
   (calls \<noteq> [] \<longrightarrow>
      (\<exists>before best after.
          best_candidate (record_calls calls) = Inr best \<and>
          map snd (record_calls calls) = before @ best # after \<and>
          (\<forall>r\<in>set before. score r < score best) \<and>
          (\<forall>r\<in>set after. score r \<le> score best) \<and>
          score best = Max (call_score ` set calls)))"
proof (intro conjI impI allI)
  assume "map_of (record_calls calls) (ins, pre) = None"
  then show "record_candidate (record_calls calls) ins pre sc prog d
        = record_calls calls
          @ [((ins, pre),
              \<lparr>score = sc, program = prog, instruction = ins, prefix = pre, depth = d\<rparr>)]"
    by (simp add: record_candidate_def update_absent)
next
  fix old assume "map_of (record_calls calls) (ins, pre) = Some old \<and> sc \<le> score old"
  then show "record_candidate (record_calls calls) ins pre sc prog d = record_calls calls"
    by (simp add: record_candidate_def)
next
  fix old assume a: "map_of (record_calls calls) (ins, pre) = Some old \<and> score old < sc"
  then have "(ins, pre) \<in> set (map fst (record_calls calls))"
    by (metis map_of_eq_None_iff option.distinct(1) set_map)
  with a show "map fst (record_candidate (record_calls calls) ins pre sc prog d)
        = map fst (record_calls calls)"
    by (simp add: record_candidate_def update_keys not_le)
  from a show "map_of (record_candidate (record_calls calls) ins pre sc prog d)
        = (map_of (record_calls calls))
            ((ins, pre) \<mapsto>
              \<lparr>score = sc, program = prog, instruction = ins, prefix = pre, depth = d\<rparr>)"
    by (simp add: record_candidate_def update_conv' not_le)
next
  show "distinct (map fst (record_calls calls))" by (rule record_calls_distinct)
next
  assume "calls = []"
  then show "best_candidate (record_calls calls) = Inl ValueError"
    by (simp add: best_candidate_def record_calls_def)
next
  assume "calls \<noteq> []"
  then show "\<exists>before best after.
          best_candidate (record_calls calls) = Inr best \<and>
          map snd (record_calls calls) = before @ best # after \<and>
          (\<forall>r\<in>set before. score r < score best) \<and>
          (\<forall>r\<in>set after. score r \<le> score best) \<and>
          score best = Max (call_score ` set calls)"
    by (rule best_candidate_of_calls)
qed

lemma example_calls_recorded:
  "record_calls example_calls =
     [((''a'', ''p''), \<lparr>score = 50, program = [], instruction = ''a'', prefix = ''p'', depth = 0\<rparr>),
      ((''b'', ''p''), \<lparr>score = 70, program = [], instruction = ''b'', prefix = ''p'', depth = 0\<rparr>),
      ((''c'', ''p''), \<lparr>score = 70, program = [], instruction = ''c'', prefix = ''p'', depth = 1\<rparr>)]"
  by (simp add: example_calls_def record_calls_def record_call_def record_candidate_def)

lemma example_best: "best_candidate (record_calls example_calls) =
   Inr \<lparr>score = 70, program = [], instruction = ''b'', prefix = ''p'', depth = 0\<rparr>"
  by (simp add: example_calls_recorded best_candidate_def)

theorem record_and_best_candidate_witness:
  "record_candidate (record_calls example_calls) ''d'' ''p'' 10 [] 1
     = record_calls example_calls
       @ [((''d'', ''p''),
           \<lparr>score = 10, program = [], instruction = ''d'', prefix = ''p'', depth = 1\<rparr>)] \<and>
   record_candidate (record_calls example_calls) ''a'' ''p'' 50 [] 1 = record_calls example_calls \<and>
   map fst (record_candidate (record_calls example_calls) ''a'' ''p'' 60 [] 1)
     = map fst (record_calls example_calls) \<and>
   map_of (record_candidate (record_calls example_calls) ''a'' ''p'' 60 [] 1) (''a'', ''p'')
     = Some \<lparr>score = 60, program = [], instruction = ''a'', prefix = ''p'', depth = 1\<rparr> \<and>
   best_candidate (record_calls []) = Inl ValueError \<and>
   (\<exists>before best after.
       best_candidate (record_calls example_calls) = Inr best \<and>
       map snd (record_calls example_calls) = before @ best # after \<and>
       (\<forall>r\<in>set before. score r < score best) \<and>
       (\<forall>r\<in>set after. score r \<le> score best) \<and>
       score best = 70)"
proof -
  let ?E = "record_calls example_calls"
  have absent: "map_of ?E (''d'', ''p'') = None"
    by (simp add: example_calls_recorded)
  have present: "map_of ?E (''a'', ''p'')
      = Some \<lparr>score = 50, program = [], instruction = ''a'', prefix = ''p'', depth = 0\<rparr>"
    by (simp add: example_calls_recorded)
  have ne: "example_calls \<noteq> []" by (simp add: example_calls_def)
  have mx: "Max (call_score ` set example_calls) = 70"
    by (simp add: example_calls_def call_score_def)
  from record_and_best_candidate[where calls = example_calls and ins = "''d''" and pre = "''p''"
      and sc = 10 and prog = "[]" and d = 1] absent
  have 1: "record_candidate ?E ''d'' ''p'' 10 [] 1
     = ?E @ [((''d'', ''p''),
           \<lparr>score = 10, program = [], instruction = ''d'', prefix = ''p'', depth = 1\<rparr>)]"
    by blast
  from record_and_best_candidate[where calls = example_calls and ins = "''a''" and pre = "''p''"
      and sc = 50 and prog = "[]" and d = 1] present
  have 2: "record_candidate ?E ''a'' ''p'' 50 [] 1 = ?E"
    by simp
  from record_and_best_candidate[where calls = example_calls and ins = "''a''" and pre = "''p''"
      and sc = 60 and prog = "[]" and d = 1] present
  have 3: "map fst (record_candidate ?E ''a'' ''p'' 60 [] 1) = map fst ?E"
    and 4: "map_of (record_candidate ?E ''a'' ''p'' 60 [] 1) (''a'', ''p'')
     = Some \<lparr>score = 60, program = [], instruction = ''a'', prefix = ''p'', depth = 1\<rparr>"
    by simp_all
  from record_and_best_candidate[where calls = "[]"]
  have 5: "best_candidate (record_calls []) = Inl ValueError"
    by simp
  from record_and_best_candidate[where calls = example_calls] ne mx
  have 6: "\<exists>before best after.
       best_candidate ?E = Inr best \<and>
       map snd ?E = before @ best # after \<and>
       (\<forall>r\<in>set before. score r < score best) \<and>
       (\<forall>r\<in>set after. score r \<le> score best) \<and>
       score best = 70"
    by simp
  from 1 2 3 4 5 6 show ?thesis by (intro conjI)
qed

section \<open>Properties of the initial candidates\<close>

lemma all_initial_candidates_nth:
  assumes "\<forall>p\<in>set preds. \<exists>x. basic_instruction_and_prefix p = Inr x"
  shows "\<exists>pools. all_initial_candidates generate breadth preds = Inr pools \<and>
           length pools = length preds \<and>
           (\<forall>i<length preds. initial_candidates generate breadth (preds ! i) = Inr (pools ! i))"
  using assms
proof (induction preds)
  case Nil
  then show ?case by simp
next
  case (Cons p ps)
  then obtain x where x: "basic_instruction_and_prefix p = Inr x" by auto
  then obtain c where c: "initial_candidates generate breadth p = Inr c"
    by (cases x) (simp add: initial_candidates_def Let_def)
  from Cons obtain pools where
    pools: "all_initial_candidates generate breadth ps = Inr pools" "length pools = length ps"
      "\<forall>i<length ps. initial_candidates generate breadth (ps ! i) = Inr (pools ! i)"
    by auto
  have "\<forall>i<length (p # ps). initial_candidates generate breadth ((p # ps) ! i) = Inr ((c # pools) ! i)"
    using c pools(3) by (auto simp: nth_Cons split: nat.splits)
  with c pools show ?case by simp
qed

text \<open>
  The predictor \<open>apply_candidate\<close> returns carries the instruction and the prefix it was
  given.
\<close>

lemma replace_instruction_and_prefix_carries:
  "replace_instruction_and_prefix s ins pre = Inr s' \<Longrightarrow>
   instructions s' = ins \<and> last_field s' = Inr ((last (sig_fields s))\<lparr>name := pre\<rparr>)"
  by (auto simp: replace_instruction_and_prefix_def last_field_def split: if_splits)

lemma apply_candidate_carries:
  assumes "apply_candidate p ins pre = Inr p'"
  shows "basic_instruction_and_prefix p' = Inr (ins, pre)"
proof (cases "extended_signature p")
  case (Some s)
  with assms obtain s' where s': "replace_instruction_and_prefix s ins pre = Inr s'"
    and p': "p' = p\<lparr>extended_signature := Some s'\<rparr>"
    by (auto simp: apply_candidate_def split: sum.splits)
  from replace_instruction_and_prefix_carries[OF s'] p' show ?thesis
    by (simp add: basic_instruction_and_prefix_def)
next
  case None
  with assms obtain s1 s1' s2' where
    s1: "replace_instruction_and_prefix s1 ins pre = Inr s1'"
    and p': "p' = p\<lparr>extended_signature1 := Some s1', extended_signature2 := Some s2'\<rparr>"
    by (auto simp: apply_candidate_def split: sum.splits option.splits)
  from replace_instruction_and_prefix_carries[OF s1] p' None show ?thesis
    by (simp add: basic_instruction_and_prefix_def)
qed

text \<open>
  The loop over the candidates calls the evaluator once for each candidate, in the order
  of the pool, on a program whose predictor at the position \<open>p_i\<close> carries the candidate
  after \<open>strip('"').strip()\<close>.
\<close>

lemma evaluate_candidates_calls:
  assumes "evaluate_candidates sv breadth d p_i n c_i cs st = Inr st'"
    and "p_i < length (module_clone st)"
  shows "\<exists>new. evaluate_calls st' = evaluate_calls st @ new \<and>
           map (\<lambda>prog. basic_instruction_and_prefix (prog ! p_i)) new
             = map (\<lambda>c. Inr (candidate_instruction_and_prefix (interpreter sv) c)) cs"
  using assms
proof (induction cs arbitrary: c_i st)
  case Nil
  then show ?case by simp
next
  case (Cons c cs)
  define ins where "ins = fst (candidate_instruction_and_prefix (interpreter sv) c)"
  define pre where "pre = snd (candidate_instruction_and_prefix (interpreter sv) c)"
  have ip: "candidate_instruction_and_prefix (interpreter sv) c = (ins, pre)"
    by (simp add: ins_def pre_def)
  from Cons.prems(1) obtain p_new where
    ap: "apply_candidate (module_clone st ! p_i) ins pre = Inr p_new"
    unfolding ins_def pre_def by (auto split: sum.splits)
  define prog where "prog = (module_clone st)[p_i := p_new]"
  from Cons.prems(1) ap obtain st1 where
    rec: "evaluate_candidates sv breadth d p_i n (c_i + 1) cs st1 = Inr st'"
    and calls1: "evaluate_calls st1 = evaluate_calls st @ [prog]"
    and clone1: "module_clone st1 = prog"
    unfolding ins_def pre_def prog_def by (auto split: sum.splits prod.splits)
  have len1: "p_i < length (module_clone st1)"
    using Cons.prems(2) by (simp add: clone1 prog_def)
  from Cons.IH[OF rec len1] obtain new where
    new: "evaluate_calls st' = evaluate_calls st1 @ new"
      "map (\<lambda>prog. basic_instruction_and_prefix (prog ! p_i)) new
         = map (\<lambda>c. Inr (candidate_instruction_and_prefix (interpreter sv) c)) cs"
    by blast
  have here: "basic_instruction_and_prefix (prog ! p_i)
                = Inr (candidate_instruction_and_prefix (interpreter sv) c)"
    using apply_candidate_carries[OF ap] Cons.prems(2) by (simp add: prog_def ip)
  have 1: "evaluate_calls st' = evaluate_calls st @ (prog # new)"
    using new(1) calls1 by simp
  have 2: "map (\<lambda>prog. basic_instruction_and_prefix (prog ! p_i)) (prog # new)
             = map (\<lambda>c. Inr (candidate_instruction_and_prefix (interpreter sv) c)) (c # cs)"
    using here new(2) by simp
  from 1 2 show ?case by blast
qed

text \<open>
  The loop stops at the first candidate whose evaluation leaves no failing row: the
  proposal of observations raises, and the candidates after it, the baseline among them,
  are not evaluated.
\<close>

lemma evaluate_candidates_stops_without_failure:
  "case initial_candidates example_generate 2 single_slot_predictor of
     Inl e \<Rightarrow> False
   | Inr pool \<Rightarrow>
       candidates_of pool
         = [(''Answer the question. Think step by step.'', ''Result:''),
            (''Answer the question.'', ''Answer:'')] \<and>
       evaluate_candidates
         (example_services\<lparr>evaluate := (\<lambda>k prog. (100, [], devset_df example_history))\<rparr>)
         2 0 0 2 0 (candidates_of pool) (start_state single_slot_predictor)
       = Inl ValueError"
  by code_simp

text \<open>
  What \<open>strip('"').strip()\<close> makes of a candidate in double quotes with a space before
  the closing one, and of a candidate without quotes or white space at its ends.
\<close>

lemma strip_quoted_candidate:
  "candidate_instruction_and_prefix (interpreter example_services)
     (quoted_instruction, ''Result:'')
   = (''Answer the question. Think step by step.'', ''Result:'')"
  by code_simp

lemma strip_plain_candidate:
  "candidate_instruction_and_prefix (interpreter example_services)
     (''Answer the question.'', ''Answer:'')
   = (''Answer the question.'', ''Answer:'')"
  by code_simp

text \<open>
  Claim C9, as stated, fails: the program evaluated for a candidate carries the
  candidate after \<open>strip('"').strip()\<close>, so a baseline that this changes is not evaluated
  as it is. For a predictor whose instructions end with a line break and breadth 2, the
  pool ends with the instructions as they are, the loop over the pool returns, and the
  two programs evaluated carry the generated instruction and the instructions without
  the line break: no program evaluated carries the instructions of the predictor.
\<close>

theorem baseline_evaluated_counterexample:
  "case initial_candidates example_generate 2 newline_predictor of
     Inl e \<Rightarrow> False
   | Inr pool \<Rightarrow>
       basic_instruction_and_prefix newline_predictor
         = Inr (''Answer the question.'' @ [CHR 0x0A], ''Answer:'') \<and>
       last (candidates_of pool) = (''Answer the question.'' @ [CHR 0x0A], ''Answer:'') \<and>
       (case evaluate_candidates example_services 2 0 0 2 0 (candidates_of pool)
               (start_state newline_predictor) of
          Inl e \<Rightarrow> False
        | Inr st' \<Rightarrow>
            map (\<lambda>prog. basic_instruction_and_prefix (prog ! 0)) (evaluate_calls st')
              = [Inr (''Answer the question.'' @ [CHR 0x0A] @ '' Think step by step.'', ''Result:''),
                 Inr (''Answer the question.'', ''Answer:'')] \<and>
            Inr (''Answer the question.'' @ [CHR 0x0A], ''Answer:'')
              \<notin> set (map (\<lambda>prog. basic_instruction_and_prefix (prog ! 0)) (evaluate_calls st')))"
  by code_simp

text \<open>
  Claim C9, amended. A predictor with \<open>extended_signature\<close>, or without it and with
  \<open>extended_signature1\<close>, has as basic instruction and prefix the instructions of that
  signature and the name of its last field. For such a predictor the initial candidates
  are the completions generated for \<open>breadth - 1\<close> with the basic instruction and the
  basic prefix appended to their two lists. When the language model returns the
  \<open>breadth - 1\<close> completions asked for, the pool has \<open>breadth\<close> candidates: the
  generated ones followed by the baseline as the last. The loop over the predictors
  builds this pool for every predictor of the program. When the loop over the candidates
  of a predictor returns, it has called the evaluator once for each candidate, in the
  order of the pool, on a program whose predictor carries the candidate after
  \<open>strip('"').strip()\<close>; on the pool of a predictor whose generated lists have the same
  length, the last program evaluated carries the baseline after
  \<open>strip('"').strip()\<close>, which is the baseline itself when it has no double quote and no
  white space at its ends.
\<close>

theorem baseline_evaluated_after_strip:
  "(extended_signature p = Some s \<and> sig_fields s \<noteq> [] \<longrightarrow>
      basic_instruction_and_prefix p = Inr (instructions s, name (last (sig_fields s)))) \<and>
   (extended_signature p = None \<and> extended_signature1 p = Some s \<and> sig_fields s \<noteq> [] \<longrightarrow>
      basic_instruction_and_prefix p = Inr (instructions s, name (last (sig_fields s)))) \<and>
   (basic_instruction_and_prefix p = Inr (bi, bp) \<longrightarrow>
      (\<exists>c. initial_candidates generate breadth p = Inr c \<and>
           proposed_instruction c = proposed_instruction (generate bi (breadth - 1)) @ [bi] \<and>
           proposed_prefix_for_output_field c
             = proposed_prefix_for_output_field (generate bi (breadth - 1)) @ [bp] \<and>
           (1 \<le> breadth \<and>
            int (length (proposed_instruction (generate bi (breadth - 1)))) = breadth - 1 \<and>
            int (length (proposed_prefix_for_output_field (generate bi (breadth - 1)))) = breadth - 1 \<longrightarrow>
              candidates_of c = candidates_of (generate bi (breadth - 1)) @ [(bi, bp)] \<and>
              int (length (candidates_of c)) = breadth \<and>
              last (candidates_of c) = (bi, bp)))) \<and>
   ((\<forall>q\<in>set preds. \<exists>x. basic_instruction_and_prefix q = Inr x) \<longrightarrow>
      (\<exists>pools. all_initial_candidates generate breadth preds = Inr pools \<and>
           length pools = length preds \<and>
           (\<forall>i<length preds.
               initial_candidates generate breadth (preds ! i) = Inr (pools ! i)))) \<and>
   (p_i < length (module_clone st) \<and>
    evaluate_candidates sv breadth d p_i n c_i cs st = Inr st' \<longrightarrow>
      (\<exists>new. evaluate_calls st' = evaluate_calls st @ new \<and>
           map (\<lambda>prog. basic_instruction_and_prefix (prog ! p_i)) new
             = map (\<lambda>c. Inr (candidate_instruction_and_prefix (interpreter sv) c)) cs)) \<and>
   (basic_instruction_and_prefix p = Inr (bi, bp) \<and>
    initial_candidates generate breadth p = Inr pool \<and>
    length (proposed_instruction (generate bi (breadth - 1)))
      = length (proposed_prefix_for_output_field (generate bi (breadth - 1))) \<and>
    p_i < length (module_clone st) \<and>
    evaluate_candidates sv breadth d p_i n c_i (candidates_of pool) st = Inr st'' \<longrightarrow>
      evaluate_calls st'' \<noteq> [] \<and>
      basic_instruction_and_prefix (last (evaluate_calls st'') ! p_i)
        = Inr (candidate_instruction_and_prefix (interpreter sv) (bi, bp)) \<and>
      (candidate_instruction_and_prefix (interpreter sv) (bi, bp) = (bi, bp) \<longrightarrow>
         basic_instruction_and_prefix (last (evaluate_calls st'') ! p_i)
           = basic_instruction_and_prefix p))"
proof (intro conjI)
  show "extended_signature p = Some s \<and> sig_fields s \<noteq> [] \<longrightarrow>
      basic_instruction_and_prefix p = Inr (instructions s, name (last (sig_fields s)))"
    by (simp add: basic_instruction_and_prefix_def last_field_def)
next
  show "extended_signature p = None \<and> extended_signature1 p = Some s \<and> sig_fields s \<noteq> [] \<longrightarrow>
      basic_instruction_and_prefix p = Inr (instructions s, name (last (sig_fields s)))"
    by (simp add: basic_instruction_and_prefix_def last_field_def)
next
  show "basic_instruction_and_prefix p = Inr (bi, bp) \<longrightarrow>
      (\<exists>c. initial_candidates generate breadth p = Inr c \<and>
           proposed_instruction c = proposed_instruction (generate bi (breadth - 1)) @ [bi] \<and>
           proposed_prefix_for_output_field c
             = proposed_prefix_for_output_field (generate bi (breadth - 1)) @ [bp] \<and>
           (1 \<le> breadth \<and>
            int (length (proposed_instruction (generate bi (breadth - 1)))) = breadth - 1 \<and>
            int (length (proposed_prefix_for_output_field (generate bi (breadth - 1)))) = breadth - 1 \<longrightarrow>
              candidates_of c = candidates_of (generate bi (breadth - 1)) @ [(bi, bp)] \<and>
              int (length (candidates_of c)) = breadth \<and>
              last (candidates_of c) = (bi, bp)))"
  proof
    assume b: "basic_instruction_and_prefix p = Inr (bi, bp)"
    let ?g = "generate bi (breadth - 1)"
    let ?c = "?g\<lparr>proposed_instruction := proposed_instruction ?g @ [bi],
                   proposed_prefix_for_output_field := proposed_prefix_for_output_field ?g @ [bp]\<rparr>"
    have c: "initial_candidates generate breadth p = Inr ?c"
      using b by (simp add: initial_candidates_def Let_def)
    have p1: "proposed_instruction ?c = proposed_instruction ?g @ [bi]" by simp
    have p2: "proposed_prefix_for_output_field ?c = proposed_prefix_for_output_field ?g @ [bp]"
      by simp
    have p3: "1 \<le> breadth \<and>
          int (length (proposed_instruction ?g)) = breadth - 1 \<and>
          int (length (proposed_prefix_for_output_field ?g)) = breadth - 1 \<longrightarrow>
            candidates_of ?c = candidates_of ?g @ [(bi, bp)] \<and>
            int (length (candidates_of ?c)) = breadth \<and>
            last (candidates_of ?c) = (bi, bp)"
      by (auto simp: candidates_of_def)
    show "\<exists>c. initial_candidates generate breadth p = Inr c \<and>
             proposed_instruction c = proposed_instruction ?g @ [bi] \<and>
             proposed_prefix_for_output_field c = proposed_prefix_for_output_field ?g @ [bp] \<and>
             (1 \<le> breadth \<and>
              int (length (proposed_instruction ?g)) = breadth - 1 \<and>
              int (length (proposed_prefix_for_output_field ?g)) = breadth - 1 \<longrightarrow>
                candidates_of c = candidates_of ?g @ [(bi, bp)] \<and>
                int (length (candidates_of c)) = breadth \<and>
                last (candidates_of c) = (bi, bp))"
      by (rule exI[of _ ?c]) (intro conjI c p1 p2 p3)
  qed
next
  show "(\<forall>q\<in>set preds. \<exists>x. basic_instruction_and_prefix q = Inr x) \<longrightarrow>
      (\<exists>pools. all_initial_candidates generate breadth preds = Inr pools \<and>
           length pools = length preds \<and>
           (\<forall>i<length preds.
               initial_candidates generate breadth (preds ! i) = Inr (pools ! i)))"
    using all_initial_candidates_nth by blast
next
  show "p_i < length (module_clone st) \<and>
    evaluate_candidates sv breadth d p_i n c_i cs st = Inr st' \<longrightarrow>
      (\<exists>new. evaluate_calls st' = evaluate_calls st @ new \<and>
           map (\<lambda>prog. basic_instruction_and_prefix (prog ! p_i)) new
             = map (\<lambda>c. Inr (candidate_instruction_and_prefix (interpreter sv) c)) cs)"
    using evaluate_candidates_calls by blast
next
  show "basic_instruction_and_prefix p = Inr (bi, bp) \<and>
    initial_candidates generate breadth p = Inr pool \<and>
    length (proposed_instruction (generate bi (breadth - 1)))
      = length (proposed_prefix_for_output_field (generate bi (breadth - 1))) \<and>
    p_i < length (module_clone st) \<and>
    evaluate_candidates sv breadth d p_i n c_i (candidates_of pool) st = Inr st'' \<longrightarrow>
      evaluate_calls st'' \<noteq> [] \<and>
      basic_instruction_and_prefix (last (evaluate_calls st'') ! p_i)
        = Inr (candidate_instruction_and_prefix (interpreter sv) (bi, bp)) \<and>
      (candidate_instruction_and_prefix (interpreter sv) (bi, bp) = (bi, bp) \<longrightarrow>
         basic_instruction_and_prefix (last (evaluate_calls st'') ! p_i)
           = basic_instruction_and_prefix p)"
  proof
    assume a: "basic_instruction_and_prefix p = Inr (bi, bp) \<and>
      initial_candidates generate breadth p = Inr pool \<and>
      length (proposed_instruction (generate bi (breadth - 1)))
        = length (proposed_prefix_for_output_field (generate bi (breadth - 1))) \<and>
      p_i < length (module_clone st) \<and>
      evaluate_candidates sv breadth d p_i n c_i (candidates_of pool) st = Inr st''"
    let ?g = "generate bi (breadth - 1)"
    from a have b: "basic_instruction_and_prefix p = Inr (bi, bp)"
      and ic: "initial_candidates generate breadth p = Inr pool"
      and same: "length (proposed_instruction ?g) = length (proposed_prefix_for_output_field ?g)"
      by simp_all
    from ic have pool: "pool = ?g\<lparr>proposed_instruction := proposed_instruction ?g @ [bi],
                   proposed_prefix_for_output_field := proposed_prefix_for_output_field ?g @ [bp]\<rparr>"
      by (auto simp: initial_candidates_def Let_def b)
    from same have cs: "candidates_of pool = candidates_of ?g @ [(bi, bp)]"
      by (simp add: pool candidates_of_def)
    from a have run: "evaluate_candidates sv breadth d p_i n c_i (candidates_of pool) st = Inr st''"
      and len: "p_i < length (module_clone st)"
      by simp_all
    from evaluate_candidates_calls[OF run len] obtain new where
      new: "evaluate_calls st'' = evaluate_calls st @ new"
        "map (\<lambda>prog. basic_instruction_and_prefix (prog ! p_i)) new
           = map (\<lambda>c. Inr (candidate_instruction_and_prefix (interpreter sv) c))
               (candidates_of pool)"
      by blast
    from new(2) have ne: "new \<noteq> []" unfolding cs by auto
    have "last (map (\<lambda>prog. basic_instruction_and_prefix (prog ! p_i)) new)
            = Inr (candidate_instruction_and_prefix (interpreter sv) (bi, bp))"
      unfolding new(2) cs by simp
    then have l: "basic_instruction_and_prefix (last new ! p_i)
            = Inr (candidate_instruction_and_prefix (interpreter sv) (bi, bp))"
      using ne by (simp add: last_map)
    have 1: "evaluate_calls st'' \<noteq> []" using new(1) ne by simp
    have 2: "basic_instruction_and_prefix (last (evaluate_calls st'') ! p_i)
        = Inr (candidate_instruction_and_prefix (interpreter sv) (bi, bp))"
      using l ne by (simp add: new(1))
    have 3: "candidate_instruction_and_prefix (interpreter sv) (bi, bp) = (bi, bp) \<longrightarrow>
         basic_instruction_and_prefix (last (evaluate_calls st'') ! p_i)
           = basic_instruction_and_prefix p"
      using 2 b by simp
    from 1 2 3 show "evaluate_calls st'' \<noteq> [] \<and>
      basic_instruction_and_prefix (last (evaluate_calls st'') ! p_i)
        = Inr (candidate_instruction_and_prefix (interpreter sv) (bi, bp)) \<and>
      (candidate_instruction_and_prefix (interpreter sv) (bi, bp) = (bi, bp) \<longrightarrow>
         basic_instruction_and_prefix (last (evaluate_calls st'') ! p_i)
           = basic_instruction_and_prefix p)"
      by (intro conjI)
  qed
qed

theorem baseline_evaluated_after_strip_witness:
  "basic_instruction_and_prefix single_slot_predictor
     = Inr (''Answer the question.'', ''Answer:'') \<and>
   basic_instruction_and_prefix dual_slot_predictor
     = Inr (''Answer the question.'', ''Answer:'') \<and>
   (\<exists>c. initial_candidates example_generate 3 single_slot_predictor = Inr c \<and>
        candidates_of c
          = candidates_of (example_generate ''Answer the question.'' 2)
            @ [(''Answer the question.'', ''Answer:'')] \<and>
        int (length (candidates_of c)) = 3 \<and>
        last (candidates_of c) = (''Answer the question.'', ''Answer:'')) \<and>
   (\<exists>pools. all_initial_candidates example_generate 3
               [single_slot_predictor, dual_slot_predictor] = Inr pools \<and>
        length pools = 2) \<and>
   (\<exists>st'. evaluate_candidates example_services 2 0 0 2 0
             [(quoted_instruction, ''Result:''),
              (''Answer the question.'', ''Answer:'')]
             (start_state single_slot_predictor) = Inr st' \<and>
          map (\<lambda>prog. basic_instruction_and_prefix (prog ! 0)) (evaluate_calls st')
            = [Inr (''Answer the question. Think step by step.'', ''Result:''),
               Inr (''Answer the question.'', ''Answer:'')]) \<and>
   (\<exists>pool st'. initial_candidates example_generate 2 single_slot_predictor = Inr pool \<and>
          evaluate_candidates example_services 2 0 0 2 0 (candidates_of pool)
            (start_state single_slot_predictor) = Inr st' \<and>
          evaluate_calls st' \<noteq> [] \<and>
          basic_instruction_and_prefix (last (evaluate_calls st') ! 0)
            = basic_instruction_and_prefix single_slot_predictor)"
proof -
  note t = baseline_evaluated_after_strip[where generate = example_generate and breadth = 3]
  note u = baseline_evaluated_after_strip[where generate = example_generate and breadth = 2
      and sv = example_services and d = 0 and p_i = 0 and n = 2 and c_i = 0
      and st = "start_state single_slot_predictor"]
  have s1: "extended_signature single_slot_predictor = Some example_signature
            \<and> sig_fields example_signature \<noteq> []"
    by (simp add: single_slot_predictor_def example_signature_def)
  have s2: "extended_signature dual_slot_predictor = None
            \<and> extended_signature1 dual_slot_predictor = Some example_signature
            \<and> sig_fields example_signature \<noteq> []"
    by (simp add: dual_slot_predictor_def example_signature_def)
  have v: "instructions example_signature = ''Answer the question.''"
    "name (last (sig_fields example_signature)) = ''Answer:''"
    by (simp_all add: example_signature_def example_field_def)
  from t[where p = single_slot_predictor and s = example_signature, THEN conjunct1] s1 v
  have 1: "basic_instruction_and_prefix single_slot_predictor
     = Inr (''Answer the question.'', ''Answer:'')"
    by simp
  from t[where p = dual_slot_predictor and s = example_signature, THEN conjunct2, THEN conjunct1]
    s2 v
  have 2: "basic_instruction_and_prefix dual_slot_predictor
     = Inr (''Answer the question.'', ''Answer:'')"
    by simp
  have g: "(1::int) \<le> 3 \<and>
     int (length (proposed_instruction (example_generate ''Answer the question.'' (3 - 1)))) = 3 - 1 \<and>
     int (length (proposed_prefix_for_output_field
                    (example_generate ''Answer the question.'' (3 - 1)))) = 3 - 1"
    by (simp add: example_generate_def)
  from t[where p = single_slot_predictor and bi = "''Answer the question.''"
      and bp = "''Answer:''", THEN conjunct2, THEN conjunct2, THEN conjunct1, rule_format, OF 1]
  obtain c where c: "initial_candidates example_generate 3 single_slot_predictor = Inr c"
    and imp: "1 \<le> (3::int) \<and>
       int (length (proposed_instruction (example_generate ''Answer the question.'' (3 - 1)))) = 3 - 1 \<and>
       int (length (proposed_prefix_for_output_field
                      (example_generate ''Answer the question.'' (3 - 1)))) = 3 - 1 \<longrightarrow>
       candidates_of c
         = candidates_of (example_generate ''Answer the question.'' (3 - 1))
           @ [(''Answer the question.'', ''Answer:'')] \<and>
       int (length (candidates_of c)) = 3 \<and>
       last (candidates_of c) = (''Answer the question.'', ''Answer:'')"
    by blast
  have two: "(3::int) - 1 = 2" by simp
  from mp[OF imp g] have 3: "candidates_of c
         = candidates_of (example_generate ''Answer the question.'' 2)
           @ [(''Answer the question.'', ''Answer:'')] \<and>
       int (length (candidates_of c)) = 3 \<and>
       last (candidates_of c) = (''Answer the question.'', ''Answer:'')"
    unfolding two .
  have all: "\<forall>q\<in>set [single_slot_predictor, dual_slot_predictor].
               \<exists>x. basic_instruction_and_prefix q = Inr x"
    using 1 2 by simp
  from t[where preds = "[single_slot_predictor, dual_slot_predictor]",
      THEN conjunct2, THEN conjunct2, THEN conjunct2, THEN conjunct1, THEN mp, OF all]
  have 4: "\<exists>pools. all_initial_candidates example_generate 3
               [single_slot_predictor, dual_slot_predictor] = Inr pools \<and>
        length pools = 2"
    by auto
  have c3: "\<exists>c. initial_candidates example_generate 3 single_slot_predictor = Inr c \<and>
        candidates_of c
          = candidates_of (example_generate ''Answer the question.'' 2)
            @ [(''Answer the question.'', ''Answer:'')] \<and>
        int (length (candidates_of c)) = 3 \<and>
        last (candidates_of c) = (''Answer the question.'', ''Answer:'')"
    by (rule exI[of _ c])
       (intro conjI c 3[THEN conjunct1] 3[THEN conjunct2, THEN conjunct1]
          3[THEN conjunct2, THEN conjunct2])
  have len: "0 < length (module_clone (start_state single_slot_predictor))"
    by (simp add: start_state_def)
  define quoted where
    "quoted = [(quoted_instruction, ''Result:''),
               (''Answer the question.'', ''Answer:'')]"
  have "case evaluate_candidates example_services 2 0 0 2 0 quoted
               (start_state single_slot_predictor) of
          Inl e \<Rightarrow> False | Inr st' \<Rightarrow> True"
    unfolding quoted_def by code_simp
  then obtain st1 where run1: "evaluate_candidates example_services 2 0 0 2 0 quoted
               (start_state single_slot_predictor) = Inr st1"
    by (auto split: sum.splits)
  from u[where cs = quoted and st' = st1, THEN conjunct2, THEN conjunct2, THEN conjunct2,
      THEN conjunct2, THEN conjunct1, THEN mp, OF conjI[OF len run1]]
  obtain new where new: "evaluate_calls st1 = evaluate_calls (start_state single_slot_predictor) @ new"
    "map (\<lambda>prog. basic_instruction_and_prefix (prog ! 0)) new
       = map (\<lambda>c. Inr (candidate_instruction_and_prefix (interpreter example_services) c)) quoted"
    by blast
  note strip1 = strip_quoted_candidate
  note strip2 = strip_plain_candidate
  have calls1: "map (\<lambda>prog. basic_instruction_and_prefix (prog ! 0)) (evaluate_calls st1)
            = [Inr (''Answer the question. Think step by step.'', ''Result:''),
               Inr (''Answer the question.'', ''Answer:'')]"
    unfolding new(1) by (simp add: start_state_def new(2) quoted_def strip1 strip2)
  have 5: "\<exists>st'. evaluate_candidates example_services 2 0 0 2 0
             [(quoted_instruction, ''Result:''),
              (''Answer the question.'', ''Answer:'')]
             (start_state single_slot_predictor) = Inr st' \<and>
          map (\<lambda>prog. basic_instruction_and_prefix (prog ! 0)) (evaluate_calls st')
            = [Inr (''Answer the question. Think step by step.'', ''Result:''),
               Inr (''Answer the question.'', ''Answer:'')]"
    using run1 calls1 unfolding quoted_def by (intro exI[of _ st1] conjI)
  from u[where p = single_slot_predictor and bi = "''Answer the question.''"
      and bp = "''Answer:''", THEN conjunct2, THEN conjunct2, THEN conjunct1, rule_format, OF 1]
  obtain pool where pool: "initial_candidates example_generate 2 single_slot_predictor = Inr pool"
    by blast
  have "case initial_candidates example_generate 2 single_slot_predictor of
          Inl e \<Rightarrow> False
        | Inr pool \<Rightarrow>
            (case evaluate_candidates example_services 2 0 0 2 0 (candidates_of pool)
                    (start_state single_slot_predictor) of
               Inl e \<Rightarrow> False | Inr st' \<Rightarrow> True)"
    by code_simp
  with pool obtain st2 where run2: "evaluate_candidates example_services 2 0 0 2 0
              (candidates_of pool) (start_state single_slot_predictor) = Inr st2"
    by (auto split: sum.splits)
  have same: "length (proposed_instruction (example_generate ''Answer the question.'' (2 - 1)))
      = length (proposed_prefix_for_output_field (example_generate ''Answer the question.'' (2 - 1)))"
    by (simp add: example_generate_def)
  from u[where p = single_slot_predictor and bi = "''Answer the question.''"
      and bp = "''Answer:''" and pool = pool and st'' = st2, THEN conjunct2, THEN conjunct2,
      THEN conjunct2, THEN conjunct2, THEN conjunct2, THEN mp,
      OF conjI[OF 1 conjI[OF pool conjI[OF same conjI[OF len run2]]]]]
  have l2: "evaluate_calls st2 \<noteq> [] \<and>
     basic_instruction_and_prefix (last (evaluate_calls st2) ! 0)
       = Inr (candidate_instruction_and_prefix (interpreter example_services)
                (''Answer the question.'', ''Answer:'')) \<and>
     (candidate_instruction_and_prefix (interpreter example_services)
        (''Answer the question.'', ''Answer:'') = (''Answer the question.'', ''Answer:'') \<longrightarrow>
      basic_instruction_and_prefix (last (evaluate_calls st2) ! 0)
        = basic_instruction_and_prefix single_slot_predictor)" .
  note last2 = l2[THEN conjunct1] l2[THEN conjunct2, THEN conjunct2]
  from last2(2) strip2
  have same2: "basic_instruction_and_prefix (last (evaluate_calls st2) ! 0)
       = basic_instruction_and_prefix single_slot_predictor"
    by (rule mp)
  have 6: "\<exists>pool st'. initial_candidates example_generate 2 single_slot_predictor = Inr pool \<and>
          evaluate_candidates example_services 2 0 0 2 0 (candidates_of pool)
            (start_state single_slot_predictor) = Inr st' \<and>
          evaluate_calls st' \<noteq> [] \<and>
          basic_instruction_and_prefix (last (evaluate_calls st') ! 0)
            = basic_instruction_and_prefix single_slot_predictor"
    by (intro exI[of _ pool] exI[of _ st2] conjI pool run2 last2(1) same2)
  show ?thesis by (intro conjI 1 2 c3 4 5 6)
qed

section \<open>Properties of the removal of duplicates\<close>

text \<open>
  For programs whose predictors all have \<open>extended_signature\<close>: of two candidates, the
  second is dropped exactly when the scores are equal and the predictors agree at every
  position; the first candidate of a list is always kept, and a list sorted by descending
  score stays sorted.
\<close>

lemma check_predictors_equal_single_slot:
  assumes "\<forall>(p1, p2)\<in>set zs. single_slot p1 \<and> single_slot p2"
  shows "check_predictors_equal zs = Inr (\<forall>(p1, p2)\<in>set zs. same_instruction_and_field p1 p2)"
  using assms
proof (induction zs)
  case Nil
  then show ?case by simp
next
  case (Cons z zs)
  obtain p1 p2 where z: "z = (p1, p2)" by (cases z)
  from Cons.prems z obtain s1 s2 where
    s: "extended_signature p1 = Some s1" "sig_fields s1 \<noteq> []"
       "extended_signature p2 = Some s2" "sig_fields s2 \<noteq> []"
    by (auto simp: single_slot_def split: option.splits)
  from Cons have IH: "check_predictors_equal zs
      = Inr (\<forall>(p1, p2)\<in>set zs. same_instruction_and_field p1 p2)"
    by simp
  show ?case
    unfolding z using s IH
    by (simp add: last_field_def same_instruction_and_field_def)
qed

lemma drop_duplicates_pair:
  assumes "\<forall>(p1, p2)\<in>set (zip (program b) (program a)). single_slot p1 \<and> single_slot p2"
  shows "drop_duplicates [a, b] =
     Inr (if score b = score a \<and>
             (\<forall>(p1, p2)\<in>set (zip (program b) (program a)). same_instruction_and_field p1 p2)
          then [a] else [a, b])"
  using check_predictors_equal_single_slot[OF assms]
  by (simp add: drop_duplicates_def check_candidates_equal_def)

lemma drop_duplicates_loop_sorted:
  "drop_duplicates_loop cs final lb s = Inr out \<Longrightarrow> sorted_wrt P (final @ cs) \<Longrightarrow>
   sorted_wrt P out"
proof (induction cs arbitrary: final lb s)
  case Nil
  then show ?case by simp
next
  case (Cons c cs)
  have keep: "sorted_wrt P ((final @ [c]) @ cs)" using Cons.prems(2) by simp
  have drop: "sorted_wrt P (final @ cs)" using Cons.prems(2) by (auto simp: sorted_wrt_append)
  show ?case
  proof (cases "score c = s")
    case False
    with Cons.prems(1) have "drop_duplicates_loop cs (final @ [c]) [c] (score c) = Inr out"
      by simp
    from Cons.IH[OF this keep] show ?thesis .
  next
    case True
    show ?thesis
    proof (cases "repeated_in c lb")
      case (Inl e)
      with True Cons.prems(1) show ?thesis by simp
    next
      case (Inr repeat)
      show ?thesis
      proof (cases repeat)
        case True
        with \<open>score c = s\<close> Inr Cons.prems(1)
        have "drop_duplicates_loop cs final lb s = Inr out" by simp
        from Cons.IH[OF this drop] show ?thesis .
      next
        case False
        with \<open>score c = s\<close> Inr Cons.prems(1)
        have "drop_duplicates_loop cs (final @ [c]) (lb @ [c]) s = Inr out" by simp
        from Cons.IH[OF this keep] show ?thesis .
      qed
    qed
  qed
qed

lemma drop_duplicates_loop_prefix:
  "drop_duplicates_loop cs final lb s = Inr out \<Longrightarrow> \<exists>kept. out = final @ kept \<and> set kept \<subseteq> set cs"
proof (induction cs arbitrary: final lb s)
  case Nil
  then show ?case by simp
next
  case (Cons c cs)
  from Cons.prems consider
      (keep) lb' s' where "drop_duplicates_loop cs (final @ [c]) lb' s' = Inr out"
    | (drop) "drop_duplicates_loop cs final lb s = Inr out"
    by (auto split: if_splits sum.splits)
  then show ?case
  proof cases
    case keep
    from Cons.IH[OF this] obtain kept where "out = (final @ [c]) @ kept" "set kept \<subseteq> set cs"
      by blast
    then have "out = final @ (c # kept) \<and> set (c # kept) \<subseteq> set (c # cs)" by auto
    then show ?thesis by blast
  next
    case drop
    from Cons.IH[OF this] obtain kept where "out = final @ kept" "set kept \<subseteq> set cs"
      by blast
    then have "out = final @ kept \<and> set kept \<subseteq> set (c # cs)" by auto
    then show ?thesis by blast
  qed
qed

lemma drop_duplicates_keeps_first:
  assumes "drop_duplicates (c # cs) = Inr out"
  shows "\<exists>rest. out = c # rest \<and> set rest \<subseteq> set cs"
proof -
  from assms consider
      (a) lb' s' where "drop_duplicates_loop cs ([] @ [c]) lb' s' = Inr out"
    by (auto simp: drop_duplicates_def split: if_splits)
  then show ?thesis
  proof cases
    case a
    from drop_duplicates_loop_prefix[OF this] show ?thesis by auto
  qed
qed

lemma drop_duplicates_sorted:
  assumes "drop_duplicates cs = Inr out" and "sorted_wrt (\<lambda>a b. score a \<ge> score b) cs"
  shows "sorted_wrt (\<lambda>a b. score a \<ge> score b) out"
  using drop_duplicates_loop_sorted[of cs "[]" "[]" "- 1" out] assms
  by (simp add: drop_duplicates_def)

text \<open>
  Claim C7. In the run with two candidates that both score 0, a program whose predictor
  has \<open>extended_signature1\<close> and \<open>extended_signature2\<close> in place of
  \<open>extended_signature\<close> is handled by the rest of \<open>compile\<close> (its basic instruction and
  prefix are read), but the removal of duplicates reads \<open>extended_signature\<close> and
  raises \<open>AttributeError\<close>. With a predictor that has \<open>extended_signature\<close> the same
  run keeps both candidates and returns the program of the first.
\<close>

theorem dual_slot_candidates_raise:
  "two_candidates_scoring_zero dual_slot_predictor = Inl AttributeError \<and>
   basic_instruction_and_prefix dual_slot_predictor
     = Inr (''Answer the question.'', ''Answer:'') \<and>
   (case two_candidates_scoring_zero single_slot_predictor of
      Inl e \<Rightarrow> False
    | Inr (best_program, candidates) \<Rightarrow>
        map instruction candidates
          = [''Answer the question. Think step by step.'', ''Answer the question.''] \<and>
        map (\<lambda>p. map_option instructions (extended_signature p)) best_program
          = [Some ''Answer the question. Think step by step.''])"
  by code_simp

section \<open>The history across evaluations\<close>

text \<open>
  The history \<open>MetricObservationHistory\<close> builds has the tables of its two datasets;
  it raises when one of them is empty. The two operations leave the dataset, its table
  and the threshold as they are.
\<close>

lemma MetricObservationHistory_table:
  "MetricObservationHistory dev ev = Inr h \<Longrightarrow>
   devset h = dev \<and> devset_df h = zip [0..<length (devset h)] (devset h) \<and>
   evalset h = ev \<and> evalset_df h = zip [0..<length (evalset h)] (evalset h)"
  by (auto simp: MetricObservationHistory_def exemplars_to_df_def split: if_splits)

lemma MetricObservationHistory_empty:
  "MetricObservationHistory [] ev = Inl IndexError"
  "MetricObservationHistory dev [] = Inl IndexError"
  by (auto simp: MetricObservationHistory_def exemplars_to_df_def split: sum.splits)

lemma example_history_built:
  "MetricObservationHistory example_devset example_devset = Inr example_history"
  by code_simp

text \<open>
  The history \<open>full_history\<close> is reached in a run: six evaluations that each propose three
  observations leave fifteen in use (no consolidation yet), and the proposal of the
  seventh evaluation makes it eighteen.
\<close>

lemma full_history_reached:
  "case repeat_evaluations 6
          (propose_then_update example_python example_encode_len example_to_markdown
             [(0, [''q0'', ''a0''])] [(1, [''q1'', ''a1'']), (2, [''q2'', ''a2''])]
             (replicate 3 (''tip'', ascii ''[0]'')) seven_completions)
          example_history of
     Inl e \<Rightarrow> False
   | Inr h6 \<Rightarrow>
       (case propose_metric_observations example_python example_encode_len example_to_markdown h6
               [(0, [''q0'', ''a0''])] [(1, [''q1'', ''a1'']), (2, [''q2'', ''a2''])]
               (replicate 3 (''tip'', ascii ''[0]'')) of
          Inl e \<Rightarrow> False
        | Inr (h7, out) \<Rightarrow> h7 = full_history)"
  by code_simp

text \<open>
  \<open>propose_metric_observations\<close> keeps the three lists disjoint: the observations it
  creates are new, and the current ones move to the list in use.
\<close>

lemma new_metric_observations_oids:
  "new_metric_observations py h i cs = Inr (obs, out) \<Longrightarrow> map oid obs = [i..<i + length cs]"
proof (induction cs arbitrary: i obs out)
  case Nil
  then show ?case by simp
next
  case (Cons c cs)
  from Cons.prems obtain ob o1 obs' o2 where
    one: "new_metric_observation py h i c = Inr (ob, o1)"
    and rest: "new_metric_observations py h (i + 1) cs = Inr (obs', o2)"
    and obs: "obs = ob # obs'"
    by (auto split: sum.splits prod.splits)
  from one have "oid ob = i"
    by (auto simp: new_metric_observation_def Let_def MetricObservation_def
          split: if_splits sum.splits)
  moreover have "[i..<i + length (c # cs)] = i # [i + 1..<i + 1 + length cs]"
    by (simp add: upt_conv_Cons del: upt_Suc)
  ultimately show ?case using Cons.IH[OF rest] obs by simp
qed

lemma propose_keeps_disjoint:
  assumes p: "propose_metric_observations py enc md h failed succeeded completions = Inr (h', out)"
    and d: "buckets_disjoint h" and a: "oids_allocated h"
  shows "buckets_disjoint h' \<and> oids_allocated h'"
proof -
  let ?cur = "current_generation_metric_observations h"
  let ?used = "previous_generations_metric_observations_used h"
  let ?unused = "previous_generations_metric_observations_unused h"
  from p obtain fields new o1 where
    n: "new_metric_observations py h (next_oid h) (zip (map fst completions) fields) = Inr (new, o1)"
    and len: "length fields = length completions"
    and h': "h' = h\<lparr>previous_generations_metric_observations_used := ?used @ ?cur,
                     current_generation_metric_observations := new,
                     next_oid := next_oid h + length new\<rparr>"
    by (auto simp: propose_metric_observations_def Let_def split: sum.splits if_splits)
  from new_metric_observations_oids[OF n] len
  have oids: "map oid new = [next_oid h..<next_oid h + length completions]" by simp
  then have ln: "length new = length completions" by (metis length_map length_upt add_diff_cancel_left')
  from a have old: "\<forall>ob\<in>set (?cur @ ?used @ ?unused). oid ob < next_oid h"
    by (simp add: oids_allocated_def list_all_iff)
  have fresh: "set (map oid new) \<inter> set (map oid (?cur @ ?used @ ?unused)) = {}"
  proof (rule ccontr)
    assume "set (map oid new) \<inter> set (map oid (?cur @ ?used @ ?unused)) \<noteq> {}"
    then obtain x where x: "x \<in> set (map oid new)" "x \<in> set (map oid (?cur @ ?used @ ?unused))"
      by blast
    from x(1) have "next_oid h \<le> x" unfolding oids by simp
    moreover from x(2) obtain ob where "ob \<in> set (?cur @ ?used @ ?unused)" "x = oid ob"
      by auto
    with old have "x < next_oid h" by blast
    ultimately show False by simp
  qed
  from d have dist: "distinct (map oid ?cur)" "distinct (map oid ?used)" "distinct (map oid ?unused)"
    "set (map oid ?cur) \<inter> set (map oid ?used) = {}"
    "set (map oid ?cur) \<inter> set (map oid ?unused) = {}"
    "set (map oid ?used) \<inter> set (map oid ?unused) = {}"
    by (auto simp: buckets_disjoint_def)
  have dn: "distinct (map oid new)" unfolding oids by simp
  have "distinct (map oid (new @ (?used @ ?cur) @ ?unused))"
    using dn dist fresh by auto
  then have 1: "buckets_disjoint h'" by (simp add: buckets_disjoint_def h')
  have "\<forall>ob\<in>set new. oid ob < next_oid h + length new"
  proof
    fix ob assume "ob \<in> set new"
    then have "oid ob \<in> set (map oid new)" by simp
    then show "oid ob < next_oid h + length new" unfolding oids ln by simp
  qed
  moreover from old have "\<forall>ob\<in>set (?cur @ ?used @ ?unused). oid ob < next_oid h + length new"
    by (meson trans_less_add1)
  ultimately have 2: "oids_allocated h'"
    by (auto simp: oids_allocated_def list_all_iff h')
  from 1 2 show ?thesis ..
qed

lemma propose_keeps_dataset:
  "propose_metric_observations py enc md h failed succeeded completions = Inr (h', out) \<Longrightarrow>
   devset h' = devset h \<and> devset_df h' = devset_df h
   \<and> max_metric_observations h' = max_metric_observations h"
  by (auto simp: propose_metric_observations_def Let_def split: sum.splits)

lemma update_keeps_dataset:
  "update_metric_observations py h cs = Inr (h', out) \<Longrightarrow>
   devset h' = devset h \<and> devset_df h' = devset_df h
   \<and> max_metric_observations h' = max_metric_observations h"
  by (auto simp: update_metric_observations_def split: sum.splits if_splits)

end
